theory Spec2Isabelle
  imports Complex_Main
begin

section \<open>Shared data: severity tiers and Python exceptions\<close>

text \<open>
  Both lambdas report a severity as one of four strings. The tiers are ordered
  LOW < MEDIUM < HIGH < CRITICAL; \<open>tier\<close> gives the position of a tier in that order.
  A Python float is a real number here. The statistics of the scorer and the score of
  the log analyzer are computed exactly; the weighted score of the scorer is computed
  as Python computes it, each operation rounded to the nearest double.
\<close>

datatype severity = LOW | MEDIUM | HIGH | CRITICAL

fun tier :: "severity \<Rightarrow> nat" where
  "tier LOW = 0"
| "tier MEDIUM = 1"
| "tier HIGH = 2"
| "tier CRITICAL = 3"

datatype py_error = TypeError | OverflowError | ClientError

section \<open>Double arithmetic\<close>

text \<open>
  A double has 53 significant bits: a real \<open>x\<close> with \<open>2^k \<le> |x| < 2^(k + 1)\<close> is rounded
  to the nearest multiple of \<open>2^(k - 52)\<close>, a tie to the multiple with an even
  factor; below \<open>2^(-1022)\<close> the multiples are those of \<open>2^(-1074)\<close>. Infinities are
  left out: \<open>round_double\<close> is used on the weighted score only, where the one
  operand that can leave the range of the doubles, \<open>z_score / 3\<close>, is cut to 1 by
  \<open>min\<close> whether it is infinite or not.
\<close>

definition round_half_even :: "real \<Rightarrow> int" where
  "round_half_even q =
     (let f = \<lfloor>q\<rfloor>; r = q - real_of_int f
      in if r < 1 / 2 then f
         else if 1 / 2 < r then f + 1
         else if even f then f else f + 1)"

definition double_exponent :: "real \<Rightarrow> int" where
  "double_exponent x = max \<lfloor>log 2 x\<rfloor> (- 1022) - 52"

definition round_double :: "real \<Rightarrow> real" where
  "round_double x =
     (if x = 0 then 0
      else sgn x
           * real_of_int
               (round_half_even (\<bar>x\<bar> / 2 powr real_of_int (double_exponent \<bar>x\<bar>)))
           * 2 powr real_of_int (double_exponent \<bar>x\<bar>))"

text \<open>
  Python's \<open>int / int\<close> raises \<open>OverflowError\<close> when the quotient is too large for a
  double, that is when it would round to \<open>2^1024\<close>.
\<close>

definition float_overflows :: "real \<Rightarrow> bool" where
  "float_overflows q = (2 ^ 1024 - 2 ^ 970 \<le> \<bar>q\<bar>)"

section \<open>Anomaly scorer: severity table (handler.py, lines 160-168)\<close>

text \<open>The if/elif chain at the end of \<open>AnomalyScorer._calculate_score\<close>.\<close>

definition score_severity :: "real \<Rightarrow> severity" where
  "score_severity anomaly_score =
     (if anomaly_score \<ge> 7 / 10 then CRITICAL
      else if anomaly_score \<ge> 5 / 10 then HIGH
      else if anomaly_score \<ge> 3 / 10 then MEDIUM
      else LOW)"

section \<open>Anomaly scorer: numpy and scipy\<close>

text \<open>
  What the scorer uses of numpy and scipy, on exact reals. \<open>np.mean\<close> and \<open>np.std\<close>
  (the population standard deviation) are called on non-empty arrays only, see
  \<open>calculate_score\<close>.
\<close>

definition np_mean :: "real list \<Rightarrow> real" where
  "np_mean a = sum_list a / real (length a)"

definition np_std :: "real list \<Rightarrow> real" where
  "np_std a = sqrt (np_mean (map (\<lambda>x. (x - np_mean a)\<^sup>2) a))"

definition np_arange :: "nat \<Rightarrow> real list" where
  "np_arange n = map real [0..<n]"

text \<open>
  \<open>np.polyfit(x, y, 1)[0]\<close>: the slope of the least-squares line through the points
  \<open>(x\<^sub>i, y\<^sub>i)\<close>, and \<open>np.polyfit(x, y, 1)[1]\<close>, its intercept.
\<close>

definition polyfit_slope :: "real list \<Rightarrow> real list \<Rightarrow> real" where
  "polyfit_slope x y =
     sum_list (map2 (\<lambda>a b. (a - np_mean x) * (b - np_mean y)) x y) /
     sum_list (map (\<lambda>a. (a - np_mean x)\<^sup>2) x)"

definition polyfit_intercept :: "real list \<Rightarrow> real list \<Rightarrow> real" where
  "polyfit_intercept x y = np_mean y - polyfit_slope x y * np_mean x"

text \<open>
  \<open>scipy.stats.percentileofscore(a, score)\<close> with its default \<open>kind='rank'\<close>, for a
  non-empty \<open>a\<close>.
\<close>

definition percentileofscore :: "real list \<Rightarrow> real \<Rightarrow> real" where
  "percentileofscore a score =
     (let left = length (filter (\<lambda>x. x < score) a);
          right = length (filter (\<lambda>x. x \<le> score) a);
          plus1 = (if left < right then 1 else 0)
      in real (left + right + plus1) * (50 / real (length a)))"

text \<open>
  A division of numpy floats does not raise on a zero divisor: the quotient is an
  infinity, or NaN for 0/0, and every comparison with NaN is false.
\<close>

datatype np_float = Finite real | PosInf | NegInf | NaN

definition np_true_divide :: "real \<Rightarrow> real \<Rightarrow> np_float" where
  "np_true_divide a b =
     (if b \<noteq> 0 then Finite (a / b)
      else if a = 0 then NaN
      else if 0 < a then PosInf else NegInf)"

fun np_greater :: "np_float \<Rightarrow> real \<Rightarrow> bool" where
  "np_greater (Finite x) t = (x > t)"
| "np_greater PosInf t = True"
| "np_greater NegInf t = False"
| "np_greater NaN t = False"

section \<open>Anomaly scorer: \<open>AnomalyScorer\<close> (handler.py, lines 29-210)\<close>

record anomaly_scorer =
  window_size :: int
  min_data_points :: int

definition AnomalyScorer_init :: anomaly_scorer where
  "AnomalyScorer_init = \<lparr>window_size = 24, min_data_points = 10\<rparr>"

text \<open>\<open>_analyze_trend\<close> (lines 180-195).\<close>

datatype trend = increasing | decreasing | stable

definition relative_change :: "real \<Rightarrow> real list \<Rightarrow> np_float" where
  "relative_change slope values = np_true_divide \<bar>slope\<bar> (np_mean values + 1 / 1000)"

definition analyze_trend :: "real list \<Rightarrow> trend" where
  "analyze_trend values =
     (if length values < 3 then stable
      else
        let x = np_arange (length values);
            slope = polyfit_slope x values
        in if np_greater (relative_change slope values) (1 / 10)
           then (if slope > 0 then increasing else decreasing)
           else stable)"

text \<open>
  \<open>_calculate_score\<close> (lines 115-178); its \<open>timestamps\<close> argument is not used. The
  split index \<open>int(len(values) * 0.8)\<close> is \<open>4 * len(values) div 5\<close>. With a single
  value the baseline is empty and numpy's mean of it is NaN, as are the scores computed
  from it: that result is \<open>None\<close> here. The locals are named \<open>mean\<close>, \<open>std\<close>, \<open>z\<close>,
  \<open>pct\<close> and \<open>tr\<close>, the names of the source being those of the result's keys.

  \<open>weighted_score\<close> is lines 152-158, in double arithmetic: the literals 0.5, 0.3
  and 0.2 are the doubles nearest to them, and every division, subtraction,
  multiplication and addition is rounded. \<open>min\<close> and \<open>abs\<close> are exact.
\<close>

record score_result =
  score :: real
  severity :: severity
  baseline_mean :: real
  baseline_std :: real
  z_score :: real
  percentile :: real
  trend :: trend

definition trend_score :: "trend \<Rightarrow> real" where
  "trend_score tr = (if tr \<in> {increasing, decreasing} then round_double (3 / 10) else 0)"

definition weighted_score :: "real \<Rightarrow> real \<Rightarrow> trend \<Rightarrow> real" where
  "weighted_score z pct tr =
     (let z_score_normalized = min (round_double (z / 3)) 1;
          percentile_score = round_double (\<bar>round_double (pct - 50)\<bar> / 50)
      in round_double
           (round_double
              (round_double (z_score_normalized * round_double (5 / 10))
               + round_double (percentile_score * round_double (3 / 10)))
            + round_double (trend_score tr * round_double (2 / 10))))"

definition calculate_score :: "real list \<Rightarrow> score_result option" where
  "calculate_score values =
     (if values = [] then
        Some \<lparr>score = 0, severity = LOW, baseline_mean = 0, baseline_std = 0,
              z_score = 0, percentile = 50, trend = stable\<rparr>
      else
        let current_value = last values;
            split_idx = 4 * length values div 5;
            baseline_values = take split_idx values;
            recent_values = drop split_idx values
        in if baseline_values = [] then None
           else
             let mean = np_mean baseline_values;
                 std0 = np_std baseline_values;
                 std = (if std0 = 0 then 1 / 1000 else std0);
                 z = \<bar>(current_value - mean) / std\<bar>;
                 pct = percentileofscore baseline_values current_value;
                 tr = analyze_trend recent_values;
                 anomaly_score = weighted_score z pct tr
             in Some \<lparr>score = anomaly_score, severity = score_severity anomaly_score,
                      baseline_mean = mean, baseline_std = std, z_score = z,
                      percentile = pct, trend = tr\<rparr>)"

text \<open>
  \<open>score_metric\<close> (lines 36-109), given what \<open>get_metric_statistics\<close> returned or
  raised. A datapoint is its timestamp and its value under the requested statistic.
  The result is one of three dicts: the insufficient-data one (namespace, metric name,
  anomaly score, status, number of datapoints), the scored one (namespace, metric name,
  the entries of \<open>_calculate_score\<close>, current value, number of datapoints; dimensions
  and the clock's timestamp are left out) and the error one.
\<close>

record datapoint =
  Timestamp :: int
  Value :: real

datatype metric_result =
    Insufficient_Data string string real string nat
  | Metric_Score string string "score_result option" "real option" nat
  | Metric_Error string string py_error

definition score_metric ::
  "anomaly_scorer \<Rightarrow> string \<Rightarrow> string \<Rightarrow> py_error + datapoint list \<Rightarrow> metric_result" where
  "score_metric self namespace metric_name response =
     (case response of
        Inl e \<Rightarrow> Metric_Error namespace metric_name e
      | Inr datapoints \<Rightarrow>
          if int (length datapoints) < min_data_points self
          then Insufficient_Data namespace metric_name 0 ''insufficient_data''
                 (length datapoints)
          else
            let values = map Value (sort_key Timestamp datapoints)
            in Metric_Score namespace metric_name (calculate_score values)
                 (if values = [] then None else Some (last values))
                 (length datapoints))"

section \<open>Log analyzer: severity table (handler.py, lines 194-203)\<close>

definition determine_severity :: "real \<Rightarrow> int \<Rightarrow> severity" where
  "determine_severity anomaly_score error_count =
     (if anomaly_score \<ge> 70 \<or> error_count > 100 then CRITICAL
      else if anomaly_score \<ge> 40 \<or> error_count > 20 then HIGH
      else if anomaly_score \<ge> 20 \<or> error_count > 5 then MEDIUM
      else LOW)"

section \<open>Log analyzer: regular expressions\<close>

text \<open>
  Log lines are ASCII strings. The character classes are those of Python's \<open>re\<close> on
  the ASCII range: \<open>\d\<close> is a decimal digit, \<open>\w\<close> a letter, a digit or the underscore,
  \<open>\s\<close> a blank, a control character 9 to 13 or 28 to 31.
\<close>

definition is_digit :: "char \<Rightarrow> bool" where
  "is_digit c = (c \<in> set ''0123456789'')"

definition is_word :: "char \<Rightarrow> bool" where
  "is_word c =
     (c \<in> set ''abcdefghijklmnopqrstuvwxyzABCDEFGHIJKLMNOPQRSTUVWXYZ0123456789_'')"

definition is_space :: "char \<Rightarrow> bool" where
  "is_space c =
     (c \<in> {CHR '' '', CHR 0x09, CHR 0x0A, CHR 0x0B, CHR 0x0C, CHR 0x0D,
            CHR 0x1C, CHR 0x1D, CHR 0x1E, CHR 0x1F})"

definition lower_char :: "char \<Rightarrow> char" where
  "lower_char c =
     (case map_of (zip ''ABCDEFGHIJKLMNOPQRSTUVWXYZ'' ''abcdefghijklmnopqrstuvwxyz'') c of
        None \<Rightarrow> c
      | Some d \<Rightarrow> d)"

text \<open>
  \<open>re.search(pattern, message, re.IGNORECASE)\<close> for a pattern without metacharacters
  (all twelve error patterns are such): the pattern occurs somewhere in the message,
  letters compared without case.
\<close>

fun match_literal :: "string \<Rightarrow> string \<Rightarrow> bool" where
  "match_literal [] text = True"
| "match_literal (p # ps) [] = False"
| "match_literal (p # ps) (c # cs) = (if p = c then match_literal ps cs else False)"

fun search_literal :: "string \<Rightarrow> string \<Rightarrow> bool" where
  "search_literal pattern [] = match_literal pattern []"
| "search_literal pattern (c # cs) =
     (if match_literal pattern (c # cs) then True else search_literal pattern cs)"

definition re_search_ignorecase :: "string \<Rightarrow> string \<Rightarrow> bool" where
  "re_search_ignorecase pattern text =
     search_literal (map lower_char pattern) (map lower_char text)"

text \<open>
  \<open>re.findall\<close> scans the text from left to right. A matcher is given the character
  before the current position (for \<open>\b\<close>) and the rest of the text, and returns the
  length of the match that starts here. After a match the scan resumes behind it;
  \<open>skip\<close> counts the characters of the current match still to be passed over.
\<close>

type_synonym matcher = "char option \<Rightarrow> string \<Rightarrow> nat option"

fun findall_from :: "matcher \<Rightarrow> char option \<Rightarrow> nat \<Rightarrow> string \<Rightarrow> string list" where
  "findall_from m prev skip [] = []"
| "findall_from m prev skip (c # cs) =
     (if 0 < skip then findall_from m (Some c) (skip - 1) cs
      else case m prev (c # cs) of
             None \<Rightarrow> findall_from m (Some c) 0 cs
           | Some n \<Rightarrow> take n (c # cs) # findall_from m (Some c) (n - 1) cs)"

definition re_findall :: "matcher \<Rightarrow> string \<Rightarrow> string list" where
  "re_findall m text = findall_from m None 0 text"

definition next_char :: "string \<Rightarrow> char option" where
  "next_char text = (case text of [] \<Rightarrow> None | c # _ \<Rightarrow> Some c)"

definition word_boundary :: "char option \<Rightarrow> char option \<Rightarrow> bool" where
  "word_boundary prev after =
     ((case prev of None \<Rightarrow> False | Some c \<Rightarrow> is_word c) \<noteq>
      (case after of None \<Rightarrow> False | Some c \<Rightarrow> is_word c))"

text \<open>The pattern \<^verbatim>\<open>\b(?:[1-5]\d{2})\b\<close>.\<close>

fun match_http_code :: matcher where
  "match_http_code prev (a # b # c # rest) =
     (if word_boundary prev (Some a) \<and> a \<in> set ''12345'' \<and> is_digit b \<and> is_digit c
         \<and> word_boundary (Some c) (next_char rest)
      then Some 3 else None)"
| "match_http_code prev text = None"

text \<open>
  The pattern \<^verbatim>\<open>\b(?:\d{1,3}\.){3}\d{1,3}\b\<close>. A greedy \<^verbatim>\<open>\d{1,3}\<close> that
  gives a digit back is followed by a digit, where neither \<^verbatim>\<open>\.\<close> nor \<^verbatim>\<open>\b\<close>
  matches: each group is a whole run of one to three digits.
\<close>

definition digit_run :: "string \<Rightarrow> nat option" where
  "digit_run text =
     (let k = length (takeWhile is_digit text)
      in if 1 \<le> k \<and> k \<le> 3 then Some k else None)"

definition octet_dot :: "string \<Rightarrow> nat option" where
  "octet_dot text =
     (case digit_run text of
        None \<Rightarrow> None
      | Some k \<Rightarrow> if next_char (drop k text) = Some CHR ''.'' then Some (k + 1) else None)"

definition match_ip_address :: matcher where
  "match_ip_address prev text =
     (if \<not> word_boundary prev (next_char text) then None
      else case octet_dot text of
        None \<Rightarrow> None
      | Some n1 \<Rightarrow>
         (case octet_dot (drop n1 text) of
            None \<Rightarrow> None
          | Some n2 \<Rightarrow>
             (case octet_dot (drop (n1 + n2) text) of
                None \<Rightarrow> None
              | Some n3 \<Rightarrow>
                 (case digit_run (drop (n1 + n2 + n3) text) of
                    None \<Rightarrow> None
                  | Some k \<Rightarrow>
                     if word_boundary (Some CHR ''0'')
                          (next_char (drop (n1 + n2 + n3 + k) text))
                     then Some (n1 + n2 + n3 + k) else None))))"

text \<open>The pattern \<^verbatim>\<open>\d{4}-\d{2}-\d{2}[\sT]\d{2}:\d{2}:\d{2}\<close>: nineteen characters.\<close>

fun match_classes :: "(char \<Rightarrow> bool) list \<Rightarrow> string \<Rightarrow> bool" where
  "match_classes [] text = True"
| "match_classes (p # ps) [] = False"
| "match_classes (p # ps) (c # cs) = (p c \<and> match_classes ps cs)"

definition timestamp_classes :: "(char \<Rightarrow> bool) list" where
  "timestamp_classes =
     [is_digit, is_digit, is_digit, is_digit, (=) CHR ''-'', is_digit, is_digit,
      (=) CHR ''-'', is_digit, is_digit, (\<lambda>c. is_space c \<or> c = CHR ''T''),
      is_digit, is_digit, (=) CHR '':'', is_digit, is_digit, (=) CHR '':'',
      is_digit, is_digit]"

definition match_timestamp :: matcher where
  "match_timestamp prev text =
     (if match_classes timestamp_classes text then Some (length timestamp_classes) else None)"

section \<open>Log analyzer: \<open>LogAnalyzer\<close> (handler.py, lines 41-203)\<close>

definition error_patterns :: "string list" where
  "error_patterns =
     [''ERROR'', ''FATAL'', ''EXCEPTION'', ''CRITICAL'', ''FAILED'', ''TIMEOUT'',
      ''OUT OF MEMORY'', ''CONNECTION REFUSED'', ''503'', ''500'', ''502'', ''504'']"

text \<open>
  A \<open>Counter\<close> is a dict whose missing keys read as 0; the association list keeps
  the dict's insertion order.
\<close>

type_synonym counter = "(string \<times> int) list"

fun counter_incr :: "string \<Rightarrow> counter \<Rightarrow> counter" where
  "counter_incr k [] = [(k, 1)]"
| "counter_incr k ((k', n) # kvs) =
     (if k = k' then (k', n + 1) # kvs else (k', n) # counter_incr k kvs)"

definition counter_get :: "counter \<Rightarrow> string \<Rightarrow> int" where
  "counter_get kvs k = (case map_of kvs k of None \<Rightarrow> 0 | Some n \<Rightarrow> n)"

text \<open>
  Lines 125-133 of \<open>_analyze_events\<close>. \<open>first_match\<close> is the inner \<open>for\<close> loop with
  its \<open>break\<close>: the first pattern, in list order, that the message matches.
  \<open>scan_message\<close> is the body of the outer loop, on the pair of \<open>error_count\<close> and
  \<open>error_types\<close>; \<open>detect_errors\<close> is the outer loop.
\<close>

fun first_match :: "string list \<Rightarrow> string \<Rightarrow> string option" where
  "first_match [] message = None"
| "first_match (pattern # patterns) message =
     (if re_search_ignorecase pattern message then Some pattern
      else first_match patterns message)"

definition scan_message :: "int \<times> counter \<Rightarrow> string \<Rightarrow> int \<times> counter" where
  "scan_message st message =
     (case first_match error_patterns message of
        None \<Rightarrow> st
      | Some pattern \<Rightarrow> (fst st + 1, counter_incr pattern (snd st)))"

definition detect_errors :: "string list \<Rightarrow> int \<times> counter" where
  "detect_errors messages = foldl scan_message (0, []) messages"

text \<open>\<open>_detect_patterns\<close> (lines 162-180).\<close>

definition message_patterns :: "string \<Rightarrow> string set" where
  "message_patterns message =
     set (re_findall match_http_code message) \<union>
     set (re_findall match_ip_address message) \<union>
     set (re_findall match_timestamp message)"

definition detect_patterns :: "string list \<Rightarrow> string set" where
  "detect_patterns messages =
     foldl (\<lambda>patterns message. patterns \<union> message_patterns message) {}
       (take 100 messages)"

text \<open>
  \<open>_calculate_anomaly_score\<close> (lines 182-192). The parameter \<open>unique_patterns\<close> is
  annotated \<open>int\<close>, and Python does not check the annotation: the value that arrives
  is either a number or a set, and dividing a set by 10 raises \<open>TypeError\<close>. The two
  divisions are of integers, and raise \<open>OverflowError\<close> on a quotient too large for a
  double.
\<close>

datatype py_value = PyInt int | PySet "string set"

definition calculate_anomaly_score :: "int \<Rightarrow> int \<Rightarrow> py_value \<Rightarrow> py_error + real" where
  "calculate_anomaly_score error_count total_events unique_patterns =
     (if total_events = 0 then Inr 0
      else if float_overflows (real_of_int error_count / real_of_int total_events)
      then Inl OverflowError
      else
        let error_rate = real_of_int error_count / real_of_int total_events
        in case unique_patterns of
             PySet patterns \<Rightarrow> Inl TypeError
           | PyInt n \<Rightarrow>
               if float_overflows (real_of_int n / 10) then Inl OverflowError
               else
                 let pattern_diversity = min (real_of_int n / 10) 1;
                     score = error_rate * 70 + pattern_diversity * 30
                 in Inr (min (score * 100) 100))"

text \<open>
  \<open>_analyze_events\<close> (lines 120-160). An event is a dict; only its \<open>message\<close> entry
  is read, with the empty string for a missing key. \<open>analysis_record\<close> is the result
  that lines 139-153 build from the messages, the counters of the loop
  (\<open>error_count\<close> and \<open>error_types\<close>, here \<open>count\<close> and \<open>types\<close>), the set of patterns
  and the score; the names of the source are those of the result's keys. The call of
  the text-insight provider (lines 155-158) is left out: it adds an opaque entry and
  changes no other.
\<close>

type_synonym log_event = "string \<rightharpoonup> string"

record log_analysis =
  error_count :: int
  error_rate :: real
  error_types :: counter
  unique_patterns :: int
  avg_message_length :: real
  anomaly_score :: real
  severity :: severity

definition event_message :: "log_event \<Rightarrow> string" where
  "event_message event = (case event ''message'' of None \<Rightarrow> [] | Some m \<Rightarrow> m)"

definition analysis_record ::
  "string list \<Rightarrow> int \<Rightarrow> counter \<Rightarrow> string set \<Rightarrow> real \<Rightarrow> log_analysis" where
  "analysis_record messages count types patterns a_score =
     (let message_lengths = map length messages;
          avg_length =
            (if message_lengths = [] then 0
             else real (sum_list message_lengths) / real (length message_lengths))
      in \<lparr>error_count = count,
          error_rate =
            (if messages = [] then 0
             else real_of_int count / real (length messages)),
          error_types = types,
          unique_patterns = int (card patterns),
          avg_message_length = avg_length,
          anomaly_score = a_score,
          severity = determine_severity a_score count\<rparr>)"

definition analyze_events :: "log_event list \<Rightarrow> py_error + log_analysis" where
  "analyze_events events =
     (let messages = map event_message events;
          (count, types) = detect_errors messages;
          patterns = detect_patterns messages
      in case calculate_anomaly_score count (int (length messages)) (PySet patterns) of
           Inl e \<Rightarrow> Inl e
         | Inr a_score \<Rightarrow> Inr (analysis_record messages count types patterns a_score))"

text \<open>
  \<open>analyze_log_group\<close> (lines 69-118), given what \<open>filter_log_events\<close> returned or
  raised. The \<open>time_range\<close> entry (the clock) is left out.
\<close>

datatype log_group_result =
    No_Events
  | Analysis log_analysis int
  | Error_Result py_error

definition analyze_log_group :: "py_error + log_event list \<Rightarrow> log_group_result" where
  "analyze_log_group response =
     (case response of
        Inl e \<Rightarrow> Error_Result e
      | Inr log_events \<Rightarrow>
          if log_events = [] then No_Events
          else case analyze_events log_events of
                 Inl e \<Rightarrow> Error_Result e
               | Inr analysis \<Rightarrow> Analysis analysis (int (length log_events)))"

section \<open>Least squares, and the inputs of the examples\<close>

text \<open>
  The sum of the squared residuals of the line \<open>a * x + b\<close> on the points
  \<open>(x\<^sub>i, y\<^sub>i)\<close>: what an ordinary least-squares fit minimises.
\<close>

definition squared_error :: "real \<Rightarrow> real \<Rightarrow> real list \<Rightarrow> real list \<Rightarrow> real" where
  "squared_error a b x y = sum_list (map2 (\<lambda>u v. (v - (a * u + b))\<^sup>2) x y)"

text \<open>
  Fifteen datapoints, given out of order: a flat baseline of twelve zeros, then 1, 2, 3.
\<close>

definition peak_values :: "real list" where
  "peak_values = replicate 12 0 @ [1, 2, 3]"

definition peak_datapoints :: "datapoint list" where
  "peak_datapoints =
     \<lparr>Timestamp = 15, Value = 3\<rparr> # \<lparr>Timestamp = 14, Value = 2\<rparr> #
     \<lparr>Timestamp = 13, Value = 1\<rparr> #
     map (\<lambda>t. \<lparr>Timestamp = int t, Value = 0\<rparr>) [0..<12]"

text \<open>
  The batch of the specification's example: 100 lines, 30 of them error lines, and
  12 distinct structural patterns.
\<close>

definition code_lines :: "string list" where
  "code_lines =
     [''200'', ''201'', ''202'', ''204'', ''301'', ''302'', ''304'', ''400'', ''401'',
      ''403'', ''404'', ''429'']"

definition spec_example_messages :: "string list" where
  "spec_example_messages = replicate 30 ''ERROR'' @ code_lines @ replicate 58 ''ok''"

definition spec_example_batch :: "log_event list" where
  "spec_example_batch = map (\<lambda>m. [''message'' \<mapsto> m]) spec_example_messages"

section \<open>Theorems\<close>

subsection \<open>Severity tables\<close>

lemma score_severity_mono:
  "s \<le> s' \<Longrightarrow> tier (score_severity s) \<le> tier (score_severity s')"
  by (simp add: score_severity_def)

lemma determine_severity_mono:
  "s \<le> s' \<Longrightarrow> e \<le> e' \<Longrightarrow> tier (determine_severity s e) \<le> tier (determine_severity s' e')"
  by (simp add: determine_severity_def)

text \<open>
  C8. Both severity classifiers are monotonic non-decreasing. For the numeric table a
  larger score never gives a lower tier; for the log table, raising the anomaly score
  with the error count fixed, or raising the error count with the score fixed, never
  gives a lower tier.
\<close>

theorem severity_tables_monotonic:
  "(s \<le> s' \<longrightarrow> tier (score_severity s) \<le> tier (score_severity s')) \<and>
   (s \<le> s' \<longrightarrow> tier (determine_severity s e) \<le> tier (determine_severity s' e)) \<and>
   (e \<le> e' \<longrightarrow> tier (determine_severity s e) \<le> tier (determine_severity s e'))"
  using score_severity_mono [of s s'] determine_severity_mono [of s s' e e]
    determine_severity_mono [of s s e e']
  by simp

theorem severity_tables_monotonic_witness:
  "(3 / 10 :: real) \<le> 6 / 10 \<and> (5 :: int) \<le> 30 \<and>
   tier (score_severity (3 / 10)) \<le> tier (score_severity (6 / 10)) \<and>
   tier (determine_severity (3 / 10) 5) \<le> tier (determine_severity (6 / 10) 5) \<and>
   tier (determine_severity (3 / 10) 5) \<le> tier (determine_severity (3 / 10) 30) \<and>
   score_severity (3 / 10) = MEDIUM \<and> score_severity (6 / 10) = HIGH \<and>
   determine_severity (3 / 10) 5 = LOW \<and> determine_severity (3 / 10) 30 = HIGH"
  using severity_tables_monotonic [of "3 / 10" "6 / 10" 5 30]
  by (simp add: score_severity_def determine_severity_def)

subsection \<open>Double arithmetic\<close>

lemma round_half_even_bounds: "\<lfloor>q\<rfloor> \<le> round_half_even q \<and> round_half_even q \<le> \<lfloor>q\<rfloor> + 1"
  by (simp add: round_half_even_def Let_def)

lemma round_half_even_int: "round_half_even (real_of_int k) = k"
  by (simp add: round_half_even_def)

lemma round_half_even_mono:
  assumes "p \<le> q"
  shows "round_half_even p \<le> round_half_even q"
proof (cases "\<lfloor>p\<rfloor> < \<lfloor>q\<rfloor>")
  case True
  have "round_half_even p \<le> \<lfloor>p\<rfloor> + 1" using round_half_even_bounds by blast
  also have "\<dots> \<le> \<lfloor>q\<rfloor>" using True by simp
  also have "\<dots> \<le> round_half_even q" using round_half_even_bounds by blast
  finally show ?thesis .
next
  case False
  with assms have eq: "\<lfloor>p\<rfloor> = \<lfloor>q\<rfloor>" using floor_mono [of p q] by linarith
  with assms have "p - real_of_int \<lfloor>p\<rfloor> \<le> q - real_of_int \<lfloor>q\<rfloor>" by simp
  then show ?thesis
    unfolding round_half_even_def Let_def eq by auto
qed

lemma round_half_even_ge: "real_of_int n \<le> q \<Longrightarrow> n \<le> round_half_even q"
  using round_half_even_mono [of "real_of_int n" q] by (simp add: round_half_even_int)

lemma round_half_even_le: "q \<le> real_of_int n \<Longrightarrow> round_half_even q \<le> n"
  using round_half_even_mono [of q "real_of_int n"] by (simp add: round_half_even_int)

lemma round_double_0: "round_double 0 = 0"
  by (simp add: round_double_def)

lemma round_double_minus: "round_double (- x) = - round_double x"
  by (simp add: round_double_def)

lemma round_double_nonneg:
  assumes "0 \<le> x" shows "0 \<le> round_double x"
proof (cases "x = 0")
  case True then show ?thesis by (simp add: round_double_def)
next
  case False
  with assms have x: "0 < x" by simp
  have "0 \<le> x / 2 powr real_of_int (double_exponent x)" using x by simp
  then have "0 \<le> round_half_even (x / 2 powr real_of_int (double_exponent x))"
    using round_half_even_ge [of 0] by simp
  then show ?thesis using x by (simp add: round_double_def)
qed

text \<open>The scaled magnitude of a normal number lies between 2^52 and 2^53.\<close>

lemma double_exponent_mono: "0 < x \<Longrightarrow> x \<le> y \<Longrightarrow> double_exponent x \<le> double_exponent y"
  unfolding double_exponent_def
  using floor_mono [of "log 2 x" "log 2 y"] by (simp add: max.coboundedI1)

lemma scaled_upper:
  assumes "0 < x"
  shows "x / 2 powr real_of_int (double_exponent x) < 2 ^ 53"
proof -
  let ?k = "\<lfloor>log 2 x\<rfloor>"
  have "x < 2 powr (real_of_int ?k + 1)"
    using floor_log_eq_powr_iff [of x 2 ?k] assms by simp
  also have "\<dots> \<le> 2 powr (real_of_int (double_exponent x) + 53)"
    by (rule powr_mono) (simp_all add: double_exponent_def)
  also have "\<dots> = 2 powr real_of_int (double_exponent x) * 2 ^ 53"
    by (simp add: powr_add)
  finally show ?thesis by (simp add: field_simps)
qed

lemma scaled_lower:
  assumes "0 < x" "- 1022 \<le> \<lfloor>log 2 x\<rfloor>"
  shows "2 ^ 52 \<le> x / 2 powr real_of_int (double_exponent x)"
proof -
  let ?k = "\<lfloor>log 2 x\<rfloor>"
  have e: "double_exponent x = ?k - 52" using assms(2) by (simp add: double_exponent_def)
  have "2 powr real_of_int (double_exponent x) * 2 ^ 52 = 2 powr (real_of_int (double_exponent x) + 52)"
    by (simp add: powr_add)
  also have "\<dots> = 2 powr real_of_int ?k" by (simp add: e)
  also have "\<dots> \<le> x" using floor_log_eq_powr_iff [of x 2 ?k] assms by simp
  finally show ?thesis by (simp add: field_simps)
qed

lemma round_double_mono_pos:
  assumes "0 < x" "x \<le> y"
  shows "round_double x \<le> round_double y"
proof -
  have y: "0 < y" using assms by simp
  let ?ex = "double_exponent x" and ?ey = "double_exponent y"
  let ?ux = "2 powr real_of_int ?ex" and ?uy = "2 powr real_of_int ?ey"
  have rx: "round_double x = real_of_int (round_half_even (x / ?ux)) * ?ux"
    using assms by (simp add: round_double_def)
  have ry: "round_double y = real_of_int (round_half_even (y / ?uy)) * ?uy"
    using y by (simp add: round_double_def)
  have le: "?ex \<le> ?ey" using assms by (rule double_exponent_mono)
  show ?thesis
  proof (cases "?ex = ?ey")
    case True
    have "x / ?ux \<le> y / ?uy" using assms True by (simp add: divide_right_mono)
    then have "round_half_even (x / ?ux) \<le> round_half_even (y / ?uy)"
      by (rule round_half_even_mono)
    then show ?thesis unfolding rx ry True by (simp add: mult_right_mono)
  next
    case False
    with le have lt: "?ex + 1 \<le> ?ey" by simp
    then have ky: "- 1022 \<le> \<lfloor>log 2 y\<rfloor>" "?ey = \<lfloor>log 2 y\<rfloor> - 52"
      unfolding double_exponent_def by linarith+
    have "round_half_even (x / ?ux) \<le> 2 ^ 53"
      using scaled_upper [OF assms(1)] round_half_even_le [of "x / ?ux" "2 ^ 53"] by simp
    then have "real_of_int (round_half_even (x / ?ux)) \<le> 2 ^ 53"
      by (metis of_int_le_iff of_int_numeral of_int_power)
    then have "round_double x \<le> 2 ^ 53 * ?ux" unfolding rx by (simp add: mult_right_mono)
    also have "\<dots> = 2 powr (real_of_int ?ex + 1 + 52)" by (simp add: powr_add)
    also have "\<dots> \<le> 2 powr (real_of_int ?ey + 52)"
      using lt by (intro powr_mono) simp_all
    also have "\<dots> = 2 ^ 52 * ?uy" by (simp add: powr_add)
    also have "\<dots> \<le> real_of_int (round_half_even (y / ?uy)) * ?uy"
    proof -
      have "2 ^ 52 \<le> round_half_even (y / ?uy)"
        using scaled_lower [OF y ky(1)] round_half_even_ge [of "2 ^ 52" "y / ?uy"] by simp
      then have "2 ^ 52 \<le> real_of_int (round_half_even (y / ?uy))"
        by (metis of_int_le_iff of_int_numeral of_int_power)
      then show ?thesis by (simp add: mult_right_mono)
    qed
    finally show ?thesis unfolding ry .
  qed
qed

lemma round_double_mono:
  assumes "0 \<le> x" "x \<le> y"
  shows "round_double x \<le> round_double y"
proof (cases "x = 0")
  case True
  then show ?thesis using assms round_double_nonneg [of y] by (simp add: round_double_0)
next
  case False
  with assms show ?thesis by (intro round_double_mono_pos) simp_all
qed

lemma round_double_abs_le:
  assumes "\<bar>x\<bar> \<le> b"
  shows "\<bar>round_double x\<bar> \<le> round_double b"
proof (cases "0 \<le> x")
  case True
  with assms have "round_double x \<le> round_double b" by (intro round_double_mono) simp_all
  with round_double_nonneg [OF True] show ?thesis by simp
next
  case False
  then have n: "0 \<le> - x" by simp
  with assms have "round_double (- x) \<le> round_double b" by (intro round_double_mono) simp_all
  with round_double_nonneg [OF n] show ?thesis by (simp add: round_double_minus)
qed

text \<open>Evaluation in a known binade.\<close>

lemma round_double_binade:
  assumes "0 < x" "2 powr real_of_int k \<le> x" "x < 2 powr real_of_int (k + 1)" "- 1022 \<le> k"
  shows "round_double x =
     real_of_int (round_half_even (x / 2 powr real_of_int (k - 52))) * 2 powr real_of_int (k - 52)"
proof -
  have "\<lfloor>log 2 x\<rfloor> = k" using floor_log_eq_powr_iff [of x 2 k] assms by simp
  then have "double_exponent x = k - 52" using assms(4) by (simp add: double_exponent_def)
  then show ?thesis using assms(1) by (simp add: round_double_def)
qed


lemma round_double_small:
  assumes "1 \<le> x * 2 ^ j" "x * 2 ^ j < 2" "j \<le> 1022"
  shows "round_double x = real_of_int (round_half_even (x * 2 ^ (j + 52))) / 2 ^ (j + 52)"
proof -
  have "0 < x * 2 ^ j" using assms(1) by linarith
  then have x: "0 < x" by (simp add: zero_less_mult_iff)
  have p: "2 powr real_of_int (- int j) = 1 / 2 ^ j"
    and q: "2 powr real_of_int (- int j + 1) = 2 / 2 ^ j"
    and r: "2 powr real_of_int (- int j - 52) = 1 / 2 ^ (j + 52)"
    by (simp_all add: powr_real_of_int powr_minus powr_add powr_diff power_add
        field_simps nat_minus_as_int flip: powr_realpow)
  have "2 powr real_of_int (- int j) \<le> x" "x < 2 powr real_of_int (- int j + 1)"
    using assms unfolding p q by (simp_all add: field_simps)
  from round_double_binade [OF x this] assms(3) show ?thesis
    unfolding r by simp
qed

lemma round_double_large:
  assumes "2 ^ j \<le> x" "x < 2 ^ (j + 1)" "j \<le> 52"
  shows "round_double x = real_of_int (round_half_even (x * 2 ^ (52 - j))) / 2 ^ (52 - j)"
proof -
  have "(0 :: real) < 2 ^ j" by simp
  with assms(1) have x: "0 < x" by linarith
  have p: "2 powr real_of_int (int j) = 2 ^ j"
    and q: "2 powr real_of_int (int j + 1) = 2 ^ (j + 1)"
    by (simp_all add: powr_add flip: powr_realpow)
  have "2 powr real_of_int (int j - 52) = 2 powr (- real (52 - j))"
    using assms(3) by (simp add: of_nat_diff)
  also have "\<dots> = 1 / 2 ^ (52 - j)"
    by (simp add: powr_minus powr_realpow divide_inverse)
  finally have r: "2 powr real_of_int (int j - 52) = 1 / 2 ^ (52 - j)" .
  have "2 powr real_of_int (int j) \<le> x" "x < 2 powr real_of_int (int j + 1)"
    using assms unfolding p q by simp_all
  from round_double_binade [OF x this] show ?thesis
    unfolding r by simp
qed

text \<open>The doubles of the weighted score's literals, and the sums at its maximum.\<close>

lemma round_double_1: "round_double 1 = 1"
  using round_double_large [of 0 1] by (simp add: round_half_even_def Let_def)

lemma round_double_half: "round_double (1 / 2) = 1 / 2"
  using round_double_small [of "1 / 2" 1] by (simp add: round_half_even_def Let_def)

lemma round_double_50: "round_double 50 = 50"
  using round_double_large [of 5 50] by (simp add: round_half_even_def Let_def)

lemma round_double_1000: "round_double 1000 = 1000"
  using round_double_large [of 9 1000] by (simp add: round_half_even_def Let_def)

lemma round_double_3_10: "round_double (3 / 10) = 5404319552844595 / 2 ^ 54"
  using round_double_small [of "3 / 10" 2] by (simp add: round_half_even_def Let_def)

lemma round_double_2_10: "round_double (1 / 5) = 3602879701896397 / 2 ^ 54"
  using round_double_small [of "1 / 5" 3] by (simp add: round_half_even_def Let_def)

lemma round_double_3_10_again:
  "round_double (5404319552844595 / 2 ^ 54) = 5404319552844595 / 2 ^ 54"
  using round_double_small [of "5404319552844595 / 2 ^ 54" 2]
  by (simp add: round_half_even_def Let_def)

lemma round_double_trend_term:
  "round_double (5404319552844595 / 2 ^ 54 * (3602879701896397 / 2 ^ 54)) =
     1080863910568919 / 2 ^ 54"
  using round_double_small [of "5404319552844595 / 2 ^ 54 * (3602879701896397 / 2 ^ 54)" 5]
  by (simp add: round_half_even_def Let_def)

lemma round_double_first_sum:
  "round_double (1 / 2 + 5404319552844595 / 2 ^ 54) = 3602879701896397 / 2 ^ 52"
  using round_double_small [of "1 / 2 + 5404319552844595 / 2 ^ 54" 1]
  by (simp add: round_half_even_def Let_def)

lemma round_double_second_sum:
  "round_double (3602879701896397 / 2 ^ 52 + 1080863910568919 / 2 ^ 54) =
     3873095679538627 / 2 ^ 52"
  using round_double_small [of "3602879701896397 / 2 ^ 52 + 1080863910568919 / 2 ^ 54" 1]
  by (simp add: round_half_even_def Let_def)

subsection \<open>Anomaly scorer: the composite score\<close>

lemma percentileofscore_bounds:
  assumes "a \<noteq> []"
  shows "0 \<le> percentileofscore a s" and "percentileofscore a s \<le> 100"
proof -
  define l where "l = length (filter (\<lambda>x. x < s) a)"
  define r where "r = length (filter (\<lambda>x. x \<le> s) a)"
  define p :: nat where "p = (if l < r then 1 else 0)"
  have n: "0 < length a" using assms by simp
  have r: "r \<le> length a" unfolding r_def by (rule length_filter_le)
  have "filter (\<lambda>x. x < s) (filter (\<lambda>x. x \<le> s) a) = filter (\<lambda>x. x < s) a"
    by (rule filter_cong [THEN trans [OF filter_filter]]) auto
  then have l: "l \<le> r" unfolding l_def r_def by (metis length_filter_le)
  from l r have "l + r + p \<le> 2 * length a" unfolding p_def by (cases "l < r") simp_all
  then have "real (l + r + p) \<le> 2 * real (length a)"
    by (metis of_nat_le_iff of_nat_mult of_nat_numeral)
  then have "real (l + r + p) * (50 / real (length a)) \<le> 100"
    using n by (simp add: field_simps)
  then show "percentileofscore a s \<le> 100"
    by (simp add: percentileofscore_def Let_def l_def r_def p_def)
  show "0 \<le> percentileofscore a s" by (simp add: percentileofscore_def Let_def)
qed

text \<open>Without rounding, the weighted sum is at most 0.86.\<close>

lemma exact_score_bounds:
  fixes z pct t :: real
  assumes "0 \<le> z" "0 \<le> pct" "pct \<le> 100" "0 \<le> t" "t \<le> 3 / 10"
  shows "0 \<le> min (z / 3) 1 * (5 / 10) + \<bar>pct - 50\<bar> / 50 * (3 / 10) + t * (2 / 10)"
    and "min (z / 3) 1 * (5 / 10) + \<bar>pct - 50\<bar> / 50 * (3 / 10) + t * (2 / 10) \<le> 86 / 100"
proof -
  have a: "0 \<le> min (z / 3) 1" "min (z / 3) 1 \<le> 1" using assms by simp_all
  have b: "0 \<le> \<bar>pct - 50\<bar> / 50" "\<bar>pct - 50\<bar> / 50 \<le> 1" using assms by simp_all
  from a b assms
  show "0 \<le> min (z / 3) 1 * (5 / 10) + \<bar>pct - 50\<bar> / 50 * (3 / 10) + t * (2 / 10)"
    by simp
  from a(2) b(2) assms(5)
  show "min (z / 3) 1 * (5 / 10) + \<bar>pct - 50\<bar> / 50 * (3 / 10) + t * (2 / 10) \<le> 86 / 100"
    by linarith
qed

text \<open>
  With rounding, every term and every sum is at most its value at the maximum,
  rounding being monotone.
\<close>

lemma weighted_score_bounds:
  assumes "0 \<le> z" "0 \<le> pct" "pct \<le> 100"
  shows "0 \<le> weighted_score z pct tr"
    and "weighted_score z pct tr \<le> 3873095679538627 / 2 ^ 52"
proof -
  define zn where "zn = min (round_double (z / 3)) 1"
  define ps where "ps = round_double (\<bar>round_double (pct - 50)\<bar> / 50)"
  define a where "a = round_double (zn * (1 / 2))"
  define b where "b = round_double (ps * (5404319552844595 / 2 ^ 54))"
  define c where "c = round_double (trend_score tr * (3602879701896397 / 2 ^ 54))"
  have w: "weighted_score z pct tr = round_double (round_double (a + b) + c)"
    unfolding weighted_score_def Let_def a_def b_def c_def zn_def ps_def
    by (simp add: round_double_half round_double_3_10 round_double_2_10)
  have zn: "0 \<le> zn" "zn \<le> 1"
    unfolding zn_def using round_double_nonneg [of "z / 3"] assms(1) by simp_all
  have a: "0 \<le> a" "a \<le> 1 / 2"
  proof -
    show "0 \<le> a" unfolding a_def using zn by (intro round_double_nonneg) simp
    have "a \<le> round_double (1 / 2)"
      unfolding a_def using zn by (intro round_double_mono) simp_all
    then show "a \<le> 1 / 2" by (simp add: round_double_half)
  qed
  have "\<bar>pct - 50\<bar> \<le> 50" using assms by simp
  from round_double_abs_le [OF this] have "\<bar>round_double (pct - 50)\<bar> \<le> 50"
    by (simp add: round_double_50)
  then have q: "0 \<le> \<bar>round_double (pct - 50)\<bar> / 50" "\<bar>round_double (pct - 50)\<bar> / 50 \<le> 1"
    by simp_all
  have ps: "0 \<le> ps" "ps \<le> 1"
  proof -
    show "0 \<le> ps" unfolding ps_def using q(1) by (rule round_double_nonneg)
    have "ps \<le> round_double 1" unfolding ps_def using q by (intro round_double_mono)
    then show "ps \<le> 1" by (simp add: round_double_1)
  qed
  have b: "0 \<le> b" "b \<le> 5404319552844595 / 2 ^ 54"
  proof -
    show "0 \<le> b" unfolding b_def using ps by (intro round_double_nonneg) simp
    have "ps * (5404319552844595 / 2 ^ 54) \<le> 1 * (5404319552844595 / 2 ^ 54)"
      using ps(2) by (intro mult_right_mono) simp_all
    then have "b \<le> round_double (5404319552844595 / 2 ^ 54)"
      unfolding b_def using ps(1) by (intro round_double_mono) simp_all
    then show "b \<le> 5404319552844595 / 2 ^ 54" by (simp only: round_double_3_10_again)
  qed
  have c: "0 \<le> c" "c \<le> 1080863910568919 / 2 ^ 54"
  proof -
    have t: "trend_score tr = 0 \<or> trend_score tr = 5404319552844595 / 2 ^ 54"
      by (simp add: trend_score_def round_double_3_10)
    then show "0 \<le> c" unfolding c_def by (intro round_double_nonneg) auto
    from t show "c \<le> 1080863910568919 / 2 ^ 54"
    proof
      assume "trend_score tr = 0"
      then show ?thesis unfolding c_def by (simp add: round_double_0)
    next
      assume t': "trend_score tr = 5404319552844595 / 2 ^ 54"
      have "c = 1080863910568919 / 2 ^ 54"
        unfolding c_def t' by (rule round_double_trend_term)
      then show ?thesis by simp
    qed
  qed
  have s1: "0 \<le> round_double (a + b)" "round_double (a + b) \<le> 3602879701896397 / 2 ^ 52"
  proof -
    show "0 \<le> round_double (a + b)" using a(1) b(1) by (intro round_double_nonneg) simp
    have "a + b \<le> 1 / 2 + 5404319552844595 / 2 ^ 54" using a(2) b(2) by linarith
    then have "round_double (a + b) \<le> round_double (1 / 2 + 5404319552844595 / 2 ^ 54)"
      using a(1) b(1) by (intro round_double_mono) simp_all
    then show "round_double (a + b) \<le> 3602879701896397 / 2 ^ 52"
      by (simp only: round_double_first_sum)
  qed
  show "0 \<le> weighted_score z pct tr"
    unfolding w using s1(1) c(1) by (intro round_double_nonneg) simp
  have "round_double (a + b) + c \<le> 3602879701896397 / 2 ^ 52 + 1080863910568919 / 2 ^ 54"
    using s1(2) c(2) by linarith
  then have "round_double (round_double (a + b) + c) \<le>
      round_double (3602879701896397 / 2 ^ 52 + 1080863910568919 / 2 ^ 54)"
    using s1(1) c(1) by (intro round_double_mono) simp_all
  then show "weighted_score z pct tr \<le> 3873095679538627 / 2 ^ 52"
    unfolding w by (simp only: round_double_second_sum)
qed

lemma weighted_score_peak: "weighted_score 3000 100 increasing = 3873095679538627 / 2 ^ 52"
proof -
  have "weighted_score 3000 100 increasing =
      round_double (round_double (round_double (1 / 2)
          + round_double (5404319552844595 / 2 ^ 54))
        + round_double (5404319552844595 / 2 ^ 54 * (3602879701896397 / 2 ^ 54)))"
    unfolding weighted_score_def Let_def trend_score_def
    by (simp add: round_double_1000 round_double_50 round_double_1 round_double_half
        round_double_3_10 round_double_2_10)
  then show ?thesis
    by (simp only: round_double_half round_double_3_10_again round_double_trend_term
        round_double_first_sum round_double_second_sum)
qed

text \<open>With two or more values the baseline is not empty and the score is computed.\<close>

lemma calculate_score_formula:
  assumes "2 \<le> length values"
  shows "\<exists>r. calculate_score values = Some r \<and>
     score r = weighted_score (z_score r) (percentile r) (trend r) \<and>
     score_result.severity r = score_severity (score r) \<and>
     0 \<le> z_score r \<and> 0 \<le> percentile r \<and> percentile r \<le> 100"
proof -
  have ne: "values \<noteq> []" using assms by auto
  have "1 \<le> 4 * length values div 5" using assms by simp
  then have b: "take (4 * length values div 5) values \<noteq> []" using ne by auto
  show ?thesis
    using ne b percentileofscore_bounds [OF b]
    by (simp add: calculate_score_def Let_def)
qed

lemma calculate_score_range:
  assumes "2 \<le> length values"
  shows "\<exists>r. calculate_score values = Some r \<and>
     score r = weighted_score (z_score r) (percentile r) (trend r) \<and>
     0 \<le> score r \<and> score r \<le> 3873095679538627 / 2 ^ 52 \<and>
     min (z_score r / 3) 1 * (5 / 10) + \<bar>percentile r - 50\<bar> / 50 * (3 / 10)
       + (if trend r \<in> {increasing, decreasing} then 3 / 10 else 0) * (2 / 10) \<le> 86 / 100"
proof -
  from calculate_score_formula [OF assms] obtain r where r: "calculate_score values = Some r"
    "score r = weighted_score (z_score r) (percentile r) (trend r)"
    "0 \<le> z_score r" "0 \<le> percentile r" "percentile r \<le> 100" by blast
  have t: "0 \<le> (if trend r \<in> {increasing, decreasing} then 3 / 10 else 0 :: real)"
    "(if trend r \<in> {increasing, decreasing} then 3 / 10 else 0 :: real) \<le> 3 / 10"
    by simp_all
  from weighted_score_bounds [OF r(3) r(4) r(5), of "trend r"]
    exact_score_bounds(2) [OF r(3) r(4) r(5) t] r(1) r(2)
  show ?thesis by simp
qed

lemma score_metric_gate:
  "(int (length datapoints) < min_data_points self \<longrightarrow>
      score_metric self ns mn (Inr datapoints) =
        Insufficient_Data ns mn 0 ''insufficient_data'' (length datapoints)) \<and>
   (min_data_points self \<le> int (length datapoints) \<longrightarrow>
      score_metric self ns mn (Inr datapoints) =
        Metric_Score ns mn (calculate_score (map Value (sort_key Timestamp datapoints)))
          (if map Value (sort_key Timestamp datapoints) = [] then None
           else Some (last (map Value (sort_key Timestamp datapoints))))
          (length datapoints))"
  by (simp add: score_metric_def Let_def)

lemma score_metric_default:
  assumes "10 \<le> length datapoints"
  shows "\<exists>r. score_metric AnomalyScorer_init ns mn (Inr datapoints) =
           Metric_Score ns mn (Some r)
             (Some (last (map Value (sort_key Timestamp datapoints)))) (length datapoints) \<and>
         score r = weighted_score (z_score r) (percentile r) (trend r) \<and>
         0 \<le> score r \<and> score r \<le> 3873095679538627 / 2 ^ 52 \<and>
         min (z_score r / 3) 1 * (5 / 10) + \<bar>percentile r - 50\<bar> / 50 * (3 / 10)
           + (if trend r \<in> {increasing, decreasing} then 3 / 10 else 0) * (2 / 10) \<le> 86 / 100"
proof -
  let ?vs = "map Value (sort_key Timestamp datapoints)"
  have "2 \<le> length ?vs" using assms by simp
  from calculate_score_range [OF this] obtain r where r: "calculate_score ?vs = Some r"
    "score r = weighted_score (z_score r) (percentile r) (trend r)"
    "0 \<le> score r" "score r \<le> 3873095679538627 / 2 ^ 52"
    "min (z_score r / 3) 1 * (5 / 10) + \<bar>percentile r - 50\<bar> / 50 * (3 / 10)
       + (if trend r \<in> {increasing, decreasing} then 3 / 10 else 0) * (2 / 10) \<le> 86 / 100"
    by blast
  have "length (sort_key Timestamp datapoints) = length datapoints" by (rule length_sort)
  with assms have "0 < length (sort_key Timestamp datapoints)" by linarith
  then have ne: "sort_key Timestamp datapoints \<noteq> []" by (metis length_greater_0_conv)
  have "score_metric AnomalyScorer_init ns mn (Inr datapoints) =
      Metric_Score ns mn (Some r) (Some (last ?vs)) (length datapoints)"
    using assms ne r(1) by (simp add: score_metric_def AnomalyScorer_init_def Let_def)
  with r show ?thesis by blast
qed

text \<open>The example that reaches the maximum.\<close>

lemma np_mean_replicate: "0 < n \<Longrightarrow> np_mean (replicate n c) = c"
  by (simp add: np_mean_def sum_list_replicate)

lemma np_std_replicate: "0 < n \<Longrightarrow> np_std (replicate n c) = 0"
  by (simp add: np_std_def np_mean_replicate)

lemma analyze_trend_1_2_3: "analyze_trend [1, 2, 3] = increasing"
  by (simp add: analyze_trend_def polyfit_slope_def np_arange_def np_mean_def
      relative_change_def np_true_divide_def Let_def upt_rec power2_eq_square)

lemma peak_score:
  "calculate_score peak_values =
     Some \<lparr>score = 3873095679538627 / 2 ^ 52, severity = CRITICAL, baseline_mean = 0,
           baseline_std = 1 / 1000, z_score = 3000, percentile = 100, trend = increasing\<rparr>"
proof -
  have "calculate_score peak_values =
     Some \<lparr>score = weighted_score 3000 100 increasing,
           severity = score_severity (weighted_score 3000 100 increasing), baseline_mean = 0,
           baseline_std = 1 / 1000, z_score = 3000, percentile = 100, trend = increasing\<rparr>"
    by (simp add: calculate_score_def peak_values_def Let_def np_mean_replicate
        np_std_replicate percentileofscore_def analyze_trend_1_2_3)
  then show ?thesis
    unfolding weighted_score_peak by (simp add: score_severity_def)
qed

lemma peak_sorted: "map Value (sort_key Timestamp peak_datapoints) = peak_values"
  by (simp add: peak_datapoints_def peak_values_def upt_rec numeral_eq_Suc)

lemma peak_length: "length peak_datapoints = 15"
  by (simp add: peak_datapoints_def)

lemma peak_metric:
  "score_metric AnomalyScorer_init ns mn (Inr peak_datapoints) =
     Metric_Score ns mn
       (Some \<lparr>score = 3873095679538627 / 2 ^ 52, severity = CRITICAL, baseline_mean = 0,
              baseline_std = 1 / 1000, z_score = 3000, percentile = 100,
              trend = increasing\<rparr>)
       (Some 3) 15"
proof -
  have "last peak_values = 3" by (simp add: peak_values_def)
  moreover have "peak_values \<noteq> []" by (simp add: peak_values_def)
  ultimately show ?thesis
    by (simp add: score_metric_def AnomalyScorer_init_def Let_def peak_length peak_sorted
        peak_score del: power_numeral)
qed

text \<open>
  C3, as stated, fails: for the fifteen datapoints of \<open>peak_datapoints\<close>, which pass the
  gate, the three terms are 0.5, 0.3 and 0.06 as doubles, and their sum in double
  arithmetic is 3873095679538627 / 2^52, printed 0.8600000000000001, above 0.86.
\<close>

theorem peak_score_exceeds:
  "10 \<le> length peak_datapoints \<and>
   score_metric AnomalyScorer_init ''AWS/Lambda'' ''Duration'' (Inr peak_datapoints) =
     Metric_Score ''AWS/Lambda'' ''Duration''
       (Some \<lparr>score = 3873095679538627 / 2 ^ 52, severity = CRITICAL, baseline_mean = 0,
              baseline_std = 1 / 1000, z_score = 3000, percentile = 100,
              trend = increasing\<rparr>)
       (Some 3) 15 \<and>
   (86 / 100 :: real) < 3873095679538627 / 2 ^ 52"
  using peak_metric [of "''AWS/Lambda''" "''Duration''"] by (simp add: peak_length)

text \<open>
  C3, amended. For every metric series that passes the minimum-population gate (ten
  datapoints or more, with the scorer as constructed), the composite score
  \<open>min(z_score / 3, 1) * 0.5 + (|percentile - 50| / 50) * 0.3 + trend_score * 0.2\<close>,
  with \<open>trend_score\<close> 0.3 for an increasing or decreasing trend and 0 otherwise,
  computed in double arithmetic, lies between 0 and 3873095679538627 / 2^52, the
  double next above 0.86 (printed 0.8600000000000001); this maximum is reached, by
  \<open>peak_datapoints\<close>. The same expression without rounding is at most 0.86.
\<close>

theorem composite_score_range:
  "(10 \<le> length datapoints \<longrightarrow>
      (\<exists>r. score_metric AnomalyScorer_init ns mn (Inr datapoints) =
             Metric_Score ns mn (Some r)
               (Some (last (map Value (sort_key Timestamp datapoints))))
               (length datapoints) \<and>
           score r = weighted_score (z_score r) (percentile r) (trend r) \<and>
           0 \<le> score r \<and> score r \<le> 3873095679538627 / 2 ^ 52 \<and>
           min (z_score r / 3) 1 * (5 / 10) + \<bar>percentile r - 50\<bar> / 50 * (3 / 10)
             + (if trend r \<in> {increasing, decreasing} then 3 / 10 else 0) * (2 / 10)
             \<le> 86 / 100)) \<and>
   (\<exists>r c. score_metric AnomalyScorer_init ns mn (Inr peak_datapoints) =
            Metric_Score ns mn (Some r) c 15 \<and> score r = 3873095679538627 / 2 ^ 52)"
  using score_metric_default [of datapoints ns mn] peak_metric [of ns mn]
  by simp

theorem composite_score_range_witness:
  "10 \<le> length peak_datapoints \<and>
   score_metric AnomalyScorer_init ''AWS/ApplicationELB'' ''TargetResponseTime''
       (Inr peak_datapoints) =
     Metric_Score ''AWS/ApplicationELB'' ''TargetResponseTime''
       (Some \<lparr>score = 3873095679538627 / 2 ^ 52, severity = CRITICAL, baseline_mean = 0,
              baseline_std = 1 / 1000, z_score = 3000, percentile = 100,
              trend = increasing\<rparr>)
       (Some 3) 15 \<and>
   weighted_score 3000 100 increasing = 3873095679538627 / 2 ^ 52 \<and>
   (0 :: real) \<le> 3873095679538627 / 2 ^ 52 \<and>
   min (3000 / 3) 1 * (5 / 10) + \<bar>100 - 50\<bar> / 50 * (3 / 10) + 3 / 10 * (2 / 10)
     \<le> (86 / 100 :: real)"
  using composite_score_range
      [of peak_datapoints "''AWS/ApplicationELB''" "''TargetResponseTime''"]
    peak_metric [of "''AWS/ApplicationELB''" "''TargetResponseTime''"]
  by (simp add: peak_length weighted_score_peak)

subsection \<open>Anomaly scorer: the insufficient-data gate\<close>

text \<open>
  C4. With exactly \<open>min_data_points - 1\<close> datapoints (9 for the scorer as constructed)
  \<open>score_metric\<close> returns the result with status \<open>insufficient_data\<close> and anomaly
  score 0, which is not the error result; with exactly \<open>min_data_points\<close> datapoints
  (10) it returns the result of the full score computation.
\<close>

theorem insufficient_data_gate:
  "(int (length datapoints) = min_data_points self - 1 \<longrightarrow>
      score_metric self ns mn (Inr datapoints) =
        Insufficient_Data ns mn 0 ''insufficient_data'' (length datapoints)) \<and>
   (int (length datapoints) = min_data_points self \<longrightarrow>
      score_metric self ns mn (Inr datapoints) =
        Metric_Score ns mn (calculate_score (map Value (sort_key Timestamp datapoints)))
          (if map Value (sort_key Timestamp datapoints) = [] then None
           else Some (last (map Value (sort_key Timestamp datapoints))))
          (length datapoints)) \<and>
   (length datapoints = 9 \<longrightarrow>
      score_metric AnomalyScorer_init ns mn (Inr datapoints) =
        Insufficient_Data ns mn 0 ''insufficient_data'' 9) \<and>
   (length datapoints = 10 \<longrightarrow>
      (\<exists>r. score_metric AnomalyScorer_init ns mn (Inr datapoints) =
             Metric_Score ns mn (Some r)
               (Some (last (map Value (sort_key Timestamp datapoints)))) 10 \<and>
           score r = weighted_score (z_score r) (percentile r) (trend r)))"
proof (intro conjI impI)
  assume "int (length datapoints) = min_data_points self - 1"
  then show "score_metric self ns mn (Inr datapoints) =
      Insufficient_Data ns mn 0 ''insufficient_data'' (length datapoints)"
    using score_metric_gate [of datapoints self ns mn] by simp
next
  assume "int (length datapoints) = min_data_points self"
  then show "score_metric self ns mn (Inr datapoints) =
      Metric_Score ns mn (calculate_score (map Value (sort_key Timestamp datapoints)))
        (if map Value (sort_key Timestamp datapoints) = [] then None
         else Some (last (map Value (sort_key Timestamp datapoints))))
        (length datapoints)"
    using score_metric_gate [of datapoints self ns mn] by simp
next
  assume "length datapoints = 9"
  then show "score_metric AnomalyScorer_init ns mn (Inr datapoints) =
      Insufficient_Data ns mn 0 ''insufficient_data'' 9"
    using score_metric_gate [of datapoints AnomalyScorer_init ns mn]
    by (simp add: AnomalyScorer_init_def)
next
  assume "length datapoints = 10"
  then show "\<exists>r. score_metric AnomalyScorer_init ns mn (Inr datapoints) =
             Metric_Score ns mn (Some r)
               (Some (last (map Value (sort_key Timestamp datapoints)))) 10 \<and>
           score r = weighted_score (z_score r) (percentile r) (trend r)"
    using score_metric_default [of datapoints ns mn] by auto
qed

theorem insufficient_data_gate_witness:
  "int (length (replicate 9 \<lparr>Timestamp = 0, Value = 5\<rparr>)) =
     min_data_points AnomalyScorer_init - 1 \<and>
   score_metric AnomalyScorer_init ''AWS/Lambda'' ''Errors''
       (Inr (replicate 9 \<lparr>Timestamp = 0, Value = 5\<rparr>)) =
     Insufficient_Data ''AWS/Lambda'' ''Errors'' 0 ''insufficient_data'' 9 \<and>
   int (length (replicate 10 \<lparr>Timestamp = 0, Value = 5\<rparr>)) =
     min_data_points AnomalyScorer_init \<and>
   score_metric AnomalyScorer_init ''AWS/Lambda'' ''Errors''
       (Inr (replicate 10 \<lparr>Timestamp = 0, Value = 5\<rparr>)) =
     Metric_Score ''AWS/Lambda'' ''Errors''
       (calculate_score
          (map Value (sort_key Timestamp (replicate 10 \<lparr>Timestamp = 0, Value = 5\<rparr>))))
       (Some 5) 10"
proof -
  have v: "map Value (sort_key Timestamp (replicate 10 \<lparr>Timestamp = 0, Value = 5\<rparr>)) =
      replicate 10 5"
    by (simp add: numeral_eq_Suc)
  show ?thesis
    using insufficient_data_gate
        [of "replicate 9 \<lparr>Timestamp = 0, Value = 5\<rparr>" AnomalyScorer_init
          "''AWS/Lambda''" "''Errors''"]
      insufficient_data_gate
        [of "replicate 10 \<lparr>Timestamp = 0, Value = 5\<rparr>" AnomalyScorer_init
          "''AWS/Lambda''" "''Errors''"]
    by (simp add: AnomalyScorer_init_def v)
qed

subsection \<open>Anomaly scorer: the trend estimator\<close>

lemma sum_list_map2_nth:
  "length x = length y \<Longrightarrow> sum_list (map2 f x y) = (\<Sum>i = 0..<length x. f (x ! i) (y ! i))"
  by (simp add: sum_list_sum_nth)

lemma sum_list_map_nth: "sum_list (map f x) = (\<Sum>i = 0..<length x. f (x ! i))"
  by (simp add: sum_list_sum_nth)

lemma sum_centered:
  assumes "x \<noteq> []"
  shows "(\<Sum>i = 0..<length x. x ! i - np_mean x) = 0"
proof -
  have "(\<Sum>i = 0..<length x. x ! i - np_mean x) = sum_list x - real (length x) * np_mean x"
    by (simp add: sum_subtractf sum_list_sum_nth)
  also have "\<dots> = 0" using assms by (simp add: np_mean_def)
  finally show ?thesis .
qed

text \<open>
  Residuals \<open>r\<close> that sum to zero and are orthogonal to \<open>w\<close> cannot be improved by
  adding a multiple of \<open>w\<close> and a constant.
\<close>

lemma least_squares_core:
  fixes w r :: "nat \<Rightarrow> real"
  assumes "(\<Sum>i \<in> I. r i) = 0" and "(\<Sum>i \<in> I. r i * w i) = 0"
  shows "(\<Sum>i \<in> I. (r i)\<^sup>2) \<le> (\<Sum>i \<in> I. (r i + d * w i + c)\<^sup>2)"
proof -
  have "(r i + d * w i + c)\<^sup>2 =
      (r i)\<^sup>2 + (d * w i + c)\<^sup>2 + 2 * d * (r i * w i) + 2 * c * r i" for i
    by (simp add: power2_eq_square algebra_simps)
  then have "(\<Sum>i \<in> I. (r i + d * w i + c)\<^sup>2) =
      (\<Sum>i \<in> I. (r i)\<^sup>2) + (\<Sum>i \<in> I. (d * w i + c)\<^sup>2)
      + 2 * d * (\<Sum>i \<in> I. r i * w i) + 2 * c * (\<Sum>i \<in> I. r i)"
    by (simp add: sum.distrib sum_distrib_left)
  moreover have "0 \<le> (\<Sum>i \<in> I. (d * w i + c)\<^sup>2)"
    by (simp add: sum_nonneg)
  ultimately show ?thesis using assms by simp
qed

lemma polyfit_least_squares:
  assumes len: "length x = length y"
    and sxx: "sum_list (map (\<lambda>a. (a - np_mean x)\<^sup>2) x) \<noteq> 0"
  shows "squared_error (polyfit_slope x y) (polyfit_intercept x y) x y \<le> squared_error a b x y"
proof -
  define n where "n = length x"
  define xm where "xm = np_mean x"
  define ym where "ym = np_mean y"
  define s where "s = polyfit_slope x y"
  define w where "w i = x ! i - xm" for i
  define r where "r i = (y ! i - ym) - s * w i" for i
  have xne: "x \<noteq> []" using sxx by auto
  then have yne: "y \<noteq> []" using len by auto
  have sw: "(\<Sum>i = 0..<n. w i) = 0"
    unfolding w_def xm_def n_def by (rule sum_centered [OF xne])
  have sy: "(\<Sum>i = 0..<n. y ! i - ym) = 0"
    unfolding ym_def n_def len by (rule sum_centered [OF yne])
  have sxx': "(\<Sum>i = 0..<n. (w i)\<^sup>2) \<noteq> 0"
    using sxx unfolding w_def xm_def n_def by (simp add: sum_list_map_nth)
  have s_eq: "s = (\<Sum>i = 0..<n. w i * (y ! i - ym)) / (\<Sum>i = 0..<n. (w i)\<^sup>2)"
    unfolding s_def polyfit_slope_def w_def xm_def ym_def n_def
    by (simp add: sum_list_map2_nth [OF len] sum_list_map_nth len)
  have r0: "(\<Sum>i = 0..<n. r i) = 0"
  proof -
    have "(\<Sum>i = 0..<n. r i) = (\<Sum>i = 0..<n. y ! i - ym) - s * (\<Sum>i = 0..<n. w i)"
      unfolding r_def by (simp add: sum_subtractf sum_distrib_left)
    then show ?thesis using sw sy by simp
  qed
  have rw0: "(\<Sum>i = 0..<n. r i * w i) = 0"
  proof -
    have "r i * w i = w i * (y ! i - ym) - s * (w i)\<^sup>2" for i
      unfolding r_def by (simp add: power2_eq_square algebra_simps)
    then have "(\<Sum>i = 0..<n. r i * w i) =
        (\<Sum>i = 0..<n. w i * (y ! i - ym)) - s * (\<Sum>i = 0..<n. (w i)\<^sup>2)"
      by (simp add: sum_subtractf sum_distrib_left)
    also have "\<dots> = 0" using sxx' by (simp add: s_eq)
    finally show ?thesis .
  qed
  have err: "squared_error a' b' x y =
      (\<Sum>i = 0..<n. (r i + (s - a') * w i + (ym - a' * xm - b'))\<^sup>2)" for a' b'
  proof -
    have e: "y ! i - (a' * x ! i + b') = r i + (s - a') * w i + (ym - a' * xm - b')" for i
      unfolding r_def w_def by (simp add: algebra_simps)
    have "squared_error a' b' x y = (\<Sum>i = 0..<n. (y ! i - (a' * x ! i + b'))\<^sup>2)"
      unfolding squared_error_def n_def by (rule sum_list_map2_nth [OF len])
    then show ?thesis by (simp only: e)
  qed
  have "squared_error s (ym - s * xm) x y = (\<Sum>i = 0..<n. (r i)\<^sup>2)"
    by (simp add: err)
  moreover have "(\<Sum>i = 0..<n. (r i)\<^sup>2) \<le> squared_error a b x y"
    unfolding err by (rule least_squares_core [OF r0 rw0])
  ultimately show ?thesis
    by (simp add: s_def polyfit_intercept_def xm_def ym_def)
qed

text \<open>The indices 0, 1, ... are not all equal, so the slope's denominator is not zero.\<close>

lemma arange_spread:
  assumes "2 \<le> n"
  shows "sum_list (map (\<lambda>a. (a - np_mean (np_arange n))\<^sup>2) (np_arange n)) \<noteq> 0"
proof
  let ?m = "np_mean (np_arange n)"
  assume "sum_list (map (\<lambda>a. (a - ?m)\<^sup>2) (np_arange n)) = 0"
  then have "\<forall>a \<in> set (np_arange n). (a - ?m)\<^sup>2 = 0"
    by (subst (asm) sum_list_nonneg_eq_0_iff) auto
  then have all: "\<forall>a \<in> set (np_arange n). a = ?m" by simp
  have "real 0 \<in> set (np_arange n)" "real 1 \<in> set (np_arange n)"
    using assms unfolding np_arange_def by (auto intro!: imageI)
  with all have "real 0 = ?m" "real 1 = ?m" by blast+
  then show False by simp
qed

lemma analyze_trend_least_squares:
  assumes "3 \<le> length values"
  shows "squared_error (polyfit_slope (np_arange (length values)) values)
           (polyfit_intercept (np_arange (length values)) values)
           (np_arange (length values)) values
         \<le> squared_error a b (np_arange (length values)) values"
proof -
  have "length (np_arange (length values)) = length values" by (simp add: np_arange_def)
  moreover have "2 \<le> length values" using assms by simp
  ultimately show ?thesis by (intro polyfit_least_squares arange_spread)
qed

lemma np_mean_nonneg: "\<forall>v \<in> set values. 0 \<le> v \<Longrightarrow> 0 \<le> np_mean values"
  by (simp add: np_mean_def sum_list_nonneg)

lemma relative_change_finite:
  "np_mean values \<noteq> - (1 / 1000) \<Longrightarrow>
     relative_change slope values = Finite (\<bar>slope\<bar> / (np_mean values + 1 / 1000))"
  by (simp add: relative_change_def np_true_divide_def)

lemma analyze_trend_cases:
  "(length values < 3 \<longrightarrow> analyze_trend values = stable) \<and>
   (3 \<le> length values \<longrightarrow>
      (np_greater (relative_change (polyfit_slope (np_arange (length values)) values) values)
          (1 / 10)
         \<and> polyfit_slope (np_arange (length values)) values > 0
         \<longrightarrow> analyze_trend values = increasing) \<and>
      (np_greater (relative_change (polyfit_slope (np_arange (length values)) values) values)
          (1 / 10)
         \<and> polyfit_slope (np_arange (length values)) values \<le> 0
         \<longrightarrow> analyze_trend values = decreasing) \<and>
      (\<not> np_greater (relative_change (polyfit_slope (np_arange (length values)) values) values)
          (1 / 10)
         \<longrightarrow> analyze_trend values = stable))"
  by (simp add: analyze_trend_def Let_def)

lemmas trend_eval =
  analyze_trend_def polyfit_slope_def polyfit_intercept_def np_arange_def np_mean_def
  relative_change_def np_true_divide_def squared_error_def Let_def upt_rec power2_eq_square

text \<open>
  C5, as stated, fails: three values of mean -0.001 make the denominator
  \<open>mean(values) + 0.001\<close> zero. The quotient is then NaN (slope zero) or infinite,
  and an infinite relative change is classified by the sign of the slope.
\<close>

theorem trend_denominator_zero:
  "3 \<le> length [- (1 / 1000), - (1 / 1000), - (1 / 1000) :: real] \<and>
   np_mean [- (1 / 1000), - (1 / 1000), - (1 / 1000)] + 1 / 1000 = 0 \<and>
   relative_change (polyfit_slope (np_arange 3) [- (1 / 1000), - (1 / 1000), - (1 / 1000)])
     [- (1 / 1000), - (1 / 1000), - (1 / 1000)] = NaN \<and>
   np_mean [0, - (1 / 1000), - (2 / 1000)] + 1 / 1000 = 0 \<and>
   relative_change (polyfit_slope (np_arange 3) [0, - (1 / 1000), - (2 / 1000)])
     [0, - (1 / 1000), - (2 / 1000)] = PosInf \<and>
   analyze_trend [0, - (1 / 1000), - (2 / 1000)] = decreasing"
  by (simp add: trend_eval)

text \<open>
  C5, amended. For every sequence of three or more values whose mean is not -0.001
  the denominator \<open>mean(values) + 0.001\<close> is not zero and the relative change is the
  finite quotient; for values that are all non-negative the denominator is at
  least 0.001.
\<close>

theorem trend_denominator_nonzero:
  "(3 \<le> length values \<and> np_mean values \<noteq> - (1 / 1000) \<longrightarrow>
      np_mean values + 1 / 1000 \<noteq> 0 \<and>
      relative_change slope values = Finite (\<bar>slope\<bar> / (np_mean values + 1 / 1000))) \<and>
   (3 \<le> length values \<and> (\<forall>v \<in> set values. 0 \<le> v) \<longrightarrow>
      1 / 1000 \<le> np_mean values + 1 / 1000)"
  using relative_change_finite [of "values" slope] np_mean_nonneg [of "values"]
  by auto

theorem trend_denominator_nonzero_witness:
  "3 \<le> length [1, 2, 3 :: real] \<and> np_mean [1, 2, 3] = 2 \<and>
   np_mean [1, 2, 3] + 1 / 1000 = 2001 / 1000 \<and>
   relative_change 1 [1, 2, 3] = Finite (1000 / 2001) \<and>
   (1 / 1000 :: real) \<le> np_mean [1, 2, 3] + 1 / 1000"
  using trend_denominator_nonzero [of "[1, 2, 3]" 1]
  by (simp add: np_mean_def)

text \<open>
  C6. The trend of fewer than three values is \<open>stable\<close>. For three or more values,
  the slope is that of the ordinary least-squares line against the indices
  \<open>0, ..., n - 1\<close> (no line has a smaller sum of squared residuals), the relative
  change is \<open>|slope| / (mean(values) + 0.001)\<close>, and the trend is \<open>increasing\<close> when
  the relative change exceeds 0.1 and the slope is positive, \<open>decreasing\<close> when it
  exceeds 0.1 and the slope is not positive, and \<open>stable\<close> otherwise.
\<close>

theorem analyze_trend_classification:
  "(length values < 3 \<longrightarrow> analyze_trend values = stable) \<and>
   (3 \<le> length values \<longrightarrow>
      (\<forall>a b. squared_error (polyfit_slope (np_arange (length values)) values)
                (polyfit_intercept (np_arange (length values)) values)
                (np_arange (length values)) values
              \<le> squared_error a b (np_arange (length values)) values) \<and>
      relative_change (polyfit_slope (np_arange (length values)) values) values =
        np_true_divide \<bar>polyfit_slope (np_arange (length values)) values\<bar>
          (np_mean values + 1 / 1000) \<and>
      (np_greater (relative_change (polyfit_slope (np_arange (length values)) values) values)
          (1 / 10)
         \<and> polyfit_slope (np_arange (length values)) values > 0
         \<longrightarrow> analyze_trend values = increasing) \<and>
      (np_greater (relative_change (polyfit_slope (np_arange (length values)) values) values)
          (1 / 10)
         \<and> polyfit_slope (np_arange (length values)) values \<le> 0
         \<longrightarrow> analyze_trend values = decreasing) \<and>
      (\<not> np_greater (relative_change (polyfit_slope (np_arange (length values)) values) values)
          (1 / 10)
         \<longrightarrow> analyze_trend values = stable))"
proof -
  have fit: "3 \<le> length values \<Longrightarrow>
      \<forall>a b. squared_error (polyfit_slope (np_arange (length values)) values)
                (polyfit_intercept (np_arange (length values)) values)
                (np_arange (length values)) values
              \<le> squared_error a b (np_arange (length values)) values"
    using analyze_trend_least_squares [of "values"] by blast
  have rc: "relative_change (polyfit_slope (np_arange (length values)) values) values =
        np_true_divide \<bar>polyfit_slope (np_arange (length values)) values\<bar>
          (np_mean values + 1 / 1000)"
    by (simp only: relative_change_def)
  from analyze_trend_cases [of "values"] fit rc show ?thesis by blast
qed

theorem analyze_trend_classification_witness:
  "length [1, 2 :: real] < 3 \<and> analyze_trend [1, 2] = stable \<and>
   3 \<le> length [1, 2, 3 :: real] \<and>
   polyfit_slope (np_arange 3) [1, 2, 3] = 1 \<and>
   polyfit_intercept (np_arange 3) [1, 2, 3] = 1 \<and>
   squared_error 1 1 (np_arange 3) [1, 2, 3] \<le> squared_error 0 2 (np_arange 3) [1, 2, 3] \<and>
   relative_change 1 [1, 2, 3] = Finite (1000 / 2001) \<and>
   analyze_trend [1, 2, 3] = increasing \<and>
   polyfit_slope (np_arange 3) [3, 2, 1] = - 1 \<and>
   relative_change (- 1) [3, 2, 1] = Finite (1000 / 2001) \<and>
   analyze_trend [3, 2, 1] = decreasing \<and>
   polyfit_slope (np_arange 3) [5, 5, 5] = 0 \<and>
   relative_change 0 [5, 5, 5] = Finite 0 \<and>
   analyze_trend [5, 5, 5] = stable"
proof -
  have s1: "polyfit_slope (np_arange 3) [1, 2, 3] = 1"
    and i1: "polyfit_intercept (np_arange 3) [1, 2, 3] = 1"
    and s2: "polyfit_slope (np_arange 3) [3, 2, 1] = - 1"
    and s3: "polyfit_slope (np_arange 3) [5, 5, 5] = 0"
    by (simp_all add: polyfit_slope_def polyfit_intercept_def np_arange_def np_mean_def
        upt_rec power2_eq_square)
  have r1: "relative_change 1 [1, 2, 3] = Finite (1000 / 2001)"
    and r2: "relative_change (- 1) [3, 2, 1] = Finite (1000 / 2001)"
    and r3: "relative_change 0 [5, 5, 5] = Finite 0"
    by (simp_all add: relative_change_def np_true_divide_def np_mean_def)
  have l2: "length [1, 2 :: real] = 2" and l3: "length [a, b, c :: real] = 3" for a b c
    by simp_all
  have t0: "analyze_trend [1, 2] = stable"
    using analyze_trend_classification [of "[1, 2]"] by simp
  have e: "squared_error 1 1 (np_arange 3) [1, 2, 3] \<le> squared_error 0 2 (np_arange 3) [1, 2, 3]"
    and t1: "analyze_trend [1, 2, 3] = increasing"
    using analyze_trend_classification [of "[1, 2, 3]", unfolded l3 s1 i1 r1] by simp_all
  have t2: "analyze_trend [3, 2, 1] = decreasing"
    using analyze_trend_classification [of "[3, 2, 1]", unfolded l3 s2 r2] by simp
  have t3: "analyze_trend [5, 5, 5] = stable"
    using analyze_trend_classification [of "[5, 5, 5]", unfolded l3 s3 r3] by simp
  show ?thesis
    by (simp only: s1 i1 s2 s3 r1 r2 r3 e t0 t1 t2 t3 l2 l3) simp
qed

subsection \<open>Log analyzer: error detection\<close>

lemma first_match_None:
  "first_match ps m = None \<longleftrightarrow> (\<forall>p \<in> set ps. \<not> re_search_ignorecase p m)"
  by (induction ps) auto

lemma first_match_Some:
  "first_match ps m = Some p \<Longrightarrow>
     \<exists>i < length ps. ps ! i = p \<and> re_search_ignorecase p m \<and>
        (\<forall>j < i. \<not> re_search_ignorecase (ps ! j) m)"
proof (induction ps)
  case Nil
  then show ?case by simp
next
  case (Cons q qs)
  show ?case
  proof (cases "re_search_ignorecase q m")
    case True
    with Cons.prems have "q = p" by simp
    with True have "(q # qs) ! 0 = p \<and> re_search_ignorecase p m \<and>
        (\<forall>j < 0. \<not> re_search_ignorecase ((q # qs) ! j) m)" by simp
    then show ?thesis by blast
  next
    case False
    with Cons.prems have "first_match qs m = Some p" by simp
    from Cons.IH [OF this] obtain i where i: "i < length qs" "qs ! i = p"
      "re_search_ignorecase p m" "\<forall>j < i. \<not> re_search_ignorecase (qs ! j) m" by blast
    have "\<forall>j < Suc i. \<not> re_search_ignorecase ((q # qs) ! j) m"
    proof (intro allI impI)
      fix j assume "j < Suc i"
      then show "\<not> re_search_ignorecase ((q # qs) ! j) m"
        using False i(4) by (cases j) auto
    qed
    with i have "Suc i < length (q # qs) \<and> (q # qs) ! Suc i = p \<and>
        re_search_ignorecase p m \<and>
        (\<forall>j < Suc i. \<not> re_search_ignorecase ((q # qs) ! j) m)" by simp
    then show ?thesis by blast
  qed
qed

lemma counter_get_incr:
  "counter_get (counter_incr p c) q = counter_get c q + (if q = p then 1 else 0)"
  by (induction p c rule: counter_incr.induct) (auto simp: counter_get_def)


lemma scan_message_count:
  "fst (scan_message st m) =
     fst st + (if first_match error_patterns m = None then 0 else 1)"
  by (simp add: scan_message_def split: option.splits)


lemma foldl_scan_count:
  "fst (foldl scan_message st ms) =
     fst st + int (length (filter (\<lambda>m. first_match error_patterns m \<noteq> None) ms))"
  by (induction ms arbitrary: st) (simp_all add: scan_message_count)

lemma foldl_scan_bucket:
  "counter_get (snd (foldl scan_message st ms)) q =
     counter_get (snd st) q
     + int (length (filter (\<lambda>m. first_match error_patterns m = Some q) ms))"
  by (induction ms arbitrary: st)
    (auto simp: scan_message_def counter_get_incr split: option.splits)



lemma detect_errors_bounds:
  "0 \<le> fst (detect_errors ms) \<and> fst (detect_errors ms) \<le> int (length ms)"
proof -
  have "length (filter (\<lambda>m. first_match error_patterns m \<noteq> None) ms) \<le> length ms"
    by (rule length_filter_le)
  then show ?thesis by (simp add: detect_errors_def foldl_scan_count)
qed

lemma error_first:
  "re_search_ignorecase ''ERROR'' m \<Longrightarrow> first_match error_patterns m = Some ''ERROR''"
  by (simp add: error_patterns_def)

lemma scan_message_match:
  assumes "\<exists>p \<in> set error_patterns. re_search_ignorecase p message"
  shows "\<exists>i < length error_patterns.
           re_search_ignorecase (error_patterns ! i) message \<and>
           (\<forall>j < i. \<not> re_search_ignorecase (error_patterns ! j) message) \<and>
           fst (scan_message (n, types) message) = n + 1 \<and>
           (\<forall>q. counter_get (snd (scan_message (n, types) message)) q =
                 counter_get types q + (if q = error_patterns ! i then 1 else 0))"
proof -
  from assms have "first_match error_patterns message \<noteq> None"
    by (simp add: first_match_None)
  then obtain p where p: "first_match error_patterns message = Some p" by blast
  from first_match_Some [OF p] obtain i where i: "i < length error_patterns"
    "error_patterns ! i = p" "re_search_ignorecase p message"
    "\<forall>j < i. \<not> re_search_ignorecase (error_patterns ! j) message" by blast
  have "scan_message (n, types) message = (n + 1, counter_incr p types)"
    by (simp add: scan_message_def p)
  with i show ?thesis by (auto simp: counter_get_incr)
qed

text \<open>
  C7. A line that matches one or more of the error patterns adds exactly one to
  \<open>error_count\<close> and one to the bucket of the first pattern, in list order, that it
  matches, and changes no other bucket; a line that matches none changes nothing. A
  line that contains both \<open>ERROR\<close> and \<open>500\<close> counts in the bucket \<open>ERROR\<close> only. Over a
  batch, \<open>error_count\<close> is the number of lines that match some pattern, each bucket
  counts the lines whose first match it is, and \<open>error_count\<close> is at most the number
  of lines.
\<close>

theorem error_detection_first_match_wins:
  "((\<exists>p \<in> set error_patterns. re_search_ignorecase p message) \<longrightarrow>
      (\<exists>i < length error_patterns.
         re_search_ignorecase (error_patterns ! i) message \<and>
         (\<forall>j < i. \<not> re_search_ignorecase (error_patterns ! j) message) \<and>
         fst (scan_message (n, types) message) = n + 1 \<and>
         (\<forall>q. counter_get (snd (scan_message (n, types) message)) q =
               counter_get types q + (if q = error_patterns ! i then 1 else 0)))) \<and>
   ((\<forall>p \<in> set error_patterns. \<not> re_search_ignorecase p message) \<longrightarrow>
      scan_message (n, types) message = (n, types)) \<and>
   (re_search_ignorecase ''ERROR'' message \<and> re_search_ignorecase ''500'' message \<longrightarrow>
      scan_message (n, types) message = (n + 1, counter_incr ''ERROR'' types)) \<and>
   fst (detect_errors messages) =
     int (length (filter (\<lambda>m. \<exists>p \<in> set error_patterns. re_search_ignorecase p m) messages)) \<and>
   counter_get (snd (detect_errors messages)) q =
     int (length (filter (\<lambda>m. first_match error_patterns m = Some q) messages)) \<and>
   fst (detect_errors messages) \<le> int (length messages)"
proof (intro conjI impI)
  assume "\<exists>p \<in> set error_patterns. re_search_ignorecase p message"
  then show "\<exists>i < length error_patterns.
         re_search_ignorecase (error_patterns ! i) message \<and>
         (\<forall>j < i. \<not> re_search_ignorecase (error_patterns ! j) message) \<and>
         fst (scan_message (n, types) message) = n + 1 \<and>
         (\<forall>q. counter_get (snd (scan_message (n, types) message)) q =
               counter_get types q + (if q = error_patterns ! i then 1 else 0))"
    by (rule scan_message_match)
next
  assume "\<forall>p \<in> set error_patterns. \<not> re_search_ignorecase p message"
  then have "first_match error_patterns message = None" by (simp add: first_match_None)
  then show "scan_message (n, types) message = (n, types)" by (simp add: scan_message_def)
next
  assume "re_search_ignorecase ''ERROR'' message \<and> re_search_ignorecase ''500'' message"
  then have "first_match error_patterns message = Some ''ERROR''" by (simp add: error_first)
  then show "scan_message (n, types) message = (n + 1, counter_incr ''ERROR'' types)"
    by (simp add: scan_message_def)
next
  have "(\<lambda>m. first_match error_patterns m \<noteq> None) =
      (\<lambda>m. \<exists>p \<in> set error_patterns. re_search_ignorecase p m)"
    by (simp add: first_match_None)
  then show "fst (detect_errors messages) =
      int (length (filter (\<lambda>m. \<exists>p \<in> set error_patterns. re_search_ignorecase p m) messages))"
    using foldl_scan_count [of "(0, [])" messages] by (simp add: detect_errors_def)
next
  show "counter_get (snd (detect_errors messages)) q =
      int (length (filter (\<lambda>m. first_match error_patterns m = Some q) messages))"
    using foldl_scan_bucket [of "(0, [])" messages q]
    by (simp add: detect_errors_def counter_get_def)
next
  show "fst (detect_errors messages) \<le> int (length messages)"
    using detect_errors_bounds [of messages] by simp
qed

theorem error_detection_first_match_wins_witness:
  "re_search_ignorecase ''ERROR'' ''upstream error 500'' \<and>
   re_search_ignorecase ''500'' ''upstream error 500'' \<and>
   scan_message (0, []) ''upstream error 500'' = (1, [(''ERROR'', 1)]) \<and>
   scan_message (1, [(''ERROR'', 1)]) ''ok'' = (1, [(''ERROR'', 1)]) \<and>
   detect_errors [''upstream error 500'', ''ok'', ''HTTP 500''] =
     (2, [(''ERROR'', 1), (''500'', 1)]) \<and>
   fst (detect_errors [''upstream error 500'', ''ok'', ''HTTP 500'']) \<le> 3"
proof -
  have e: "re_search_ignorecase ''ERROR'' ''upstream error 500''"
    and f: "re_search_ignorecase ''500'' ''upstream error 500''"
    by code_simp+
  have ok: "\<forall>p \<in> set error_patterns. \<not> re_search_ignorecase p ''ok''"
    by code_simp
  have d: "detect_errors [''upstream error 500'', ''ok'', ''HTTP 500''] =
      (2, [(''ERROR'', 1), (''500'', 1)])"
    by code_simp
  show ?thesis
    using error_detection_first_match_wins
        [of "''upstream error 500''" 0 "[]" "[''upstream error 500'', ''ok'', ''HTTP 500'']"]
      error_detection_first_match_wins [of "''ok''" 1 "[(''ERROR'', 1)]" "[]"]
    by (simp add: e f ok d)
qed

subsection \<open>Log analyzer: pattern extraction\<close>

lemma detect_patterns_Union:
  "detect_patterns ms = (\<Union>m \<in> set (take 100 ms). message_patterns m)"
proof -
  have "foldl (\<lambda>patterns message. patterns \<union> message_patterns message) A xs =
      A \<union> (\<Union>m \<in> set xs. message_patterns m)" for A xs
    by (induction xs arbitrary: A) auto
  then show ?thesis by (simp add: detect_patterns_def)
qed

lemma message_patterns_ok: "message_patterns ''ok'' = {}"
  by code_simp

text \<open>
  C9. The patterns extracted from a batch are those extracted from its first 100
  lines: they are the union, over these lines, of the status codes, IPv4 addresses and
  timestamps found in the line. A 101st line is not looked at, whatever it contains.
\<close>

theorem detect_patterns_first_100_lines:
  "detect_patterns messages = detect_patterns (take 100 messages) \<and>
   detect_patterns messages = (\<Union>m \<in> set (take 100 messages). message_patterns m) \<and>
   message_patterns ''GET /x 200 10.0.0.1 2024-01-02T03:04:05'' =
     {''200'', ''10.0.0.1'', ''2024-01-02T03:04:05''} \<and>
   detect_patterns (replicate 100 ''ok'' @ [''GET /x 200 10.0.0.1 2024-01-02T03:04:05'']) = {}"
proof -
  have "message_patterns ''GET /x 200 10.0.0.1 2024-01-02T03:04:05'' =
     {''200'', ''10.0.0.1'', ''2024-01-02T03:04:05''}"
    by code_simp
  then show ?thesis
    by (simp add: detect_patterns_Union message_patterns_ok)
qed

subsection \<open>Log analyzer: the score of a batch\<close>

lemma small_quotient: "\<bar>q\<bar> \<le> 2 \<Longrightarrow> \<not> float_overflows q"
proof -
  have "(2 :: real) ^ 1024 = 2 ^ 54 * 2 ^ 970" by (simp flip: power_add)
  then have "(2 :: real) ^ 1024 - 2 ^ 970 = (2 ^ 54 - 1) * 2 ^ 970" by (simp add: algebra_simps)
  moreover have "(1 :: real) * 2 ^ 2 \<le> (2 ^ 54 - 1) * 2 ^ 970"
    by (intro mult_mono power_increasing) simp_all
  ultimately have "(4 :: real) \<le> 2 ^ 1024 - 2 ^ 970" by simp
  then show "\<bar>q\<bar> \<le> 2 \<Longrightarrow> \<not> float_overflows q" by (simp add: float_overflows_def)
qed

text \<open>
  \<open>_analyze_events\<close> hands the set of patterns, not their number, to
  \<open>_calculate_anomaly_score\<close>: every non-empty batch ends in \<open>TypeError\<close>, which
  \<open>analyze_log_group\<close> turns into its error result.
\<close>

lemma calculate_anomaly_score_PySet:
  assumes "0 \<le> n" "n \<le> total_events" "total_events \<noteq> 0"
  shows "calculate_anomaly_score n total_events (PySet S) = Inl TypeError"
proof -
  have "\<bar>real_of_int n / real_of_int total_events\<bar> \<le> 1" using assms by simp
  then have "\<not> float_overflows (real_of_int n / real_of_int total_events)"
    by (intro small_quotient) simp
  then show ?thesis using assms(3) by (simp add: calculate_anomaly_score_def)
qed

lemma analyze_events_nonempty:
  assumes "events \<noteq> []"
  shows "analyze_events events = Inl TypeError"
proof -
  let ?ms = "map event_message events"
  have "0 \<le> fst (detect_errors ?ms)" "fst (detect_errors ?ms) \<le> int (length ?ms)"
    using detect_errors_bounds [of ?ms] by simp_all
  moreover have "int (length ?ms) \<noteq> 0" using assms by simp
  ultimately have "calculate_anomaly_score (fst (detect_errors ?ms)) (int (length ?ms))
      (PySet (detect_patterns ?ms)) = Inl TypeError"
    by (rule calculate_anomaly_score_PySet)
  then show ?thesis by (auto simp: analyze_events_def Let_def split: prod.splits)
qed

lemma analyze_log_group_nonempty:
  "events \<noteq> [] \<Longrightarrow> analyze_log_group (Inr events) = Error_Result TypeError"
  by (simp add: analyze_log_group_def analyze_events_nonempty)

text \<open>
  Called with the number of patterns, \<open>_calculate_anomaly_score\<close> multiplies the
  weighted sum, already on the scale of 0 to 100, by 100 again: one pattern is enough
  for the score 100 and the severity CRITICAL.
\<close>

lemma calculate_anomaly_score_saturates:
  assumes "0 < total_events" "0 \<le> n" "n \<le> total_events" "1 \<le> u" "u \<le> 20"
  shows "calculate_anomaly_score n total_events (PyInt u) = Inr 100"
    and "determine_severity 100 n = CRITICAL"
proof -
  have a: "0 \<le> real_of_int n / real_of_int total_events" using assms by simp
  have "\<bar>real_of_int n / real_of_int total_events\<bar> \<le> 1" using assms by simp
  then have o1: "\<not> float_overflows (real_of_int n / real_of_int total_events)"
    by (intro small_quotient) simp
  have "\<bar>real_of_int u / 10\<bar> \<le> 2" using assms by simp
  then have o2: "\<not> float_overflows (real_of_int u / 10)" by (rule small_quotient)
  have "1 / 10 \<le> min (real_of_int u / 10) 1" using assms by simp
  then have "3 \<le> min (real_of_int u / 10) 1 * 30" by simp
  with a have "100 \<le> (real_of_int n / real_of_int total_events * 70
      + min (real_of_int u / 10) 1 * 30) * 100"
    by simp
  then show "calculate_anomaly_score n total_events (PyInt u) = Inr 100"
    using assms o1 o2 by (simp add: calculate_anomaly_score_def Let_def min_def)
  show "determine_severity 100 n = CRITICAL" by (simp add: determine_severity_def)
qed

text \<open>The batch of the specification's example.\<close>

lemma example_messages: "map event_message spec_example_batch = spec_example_messages"
  by (simp add: spec_example_batch_def event_message_def comp_def)

lemma example_length: "length spec_example_messages = 100"
  by (simp add: spec_example_messages_def code_lines_def)

lemma example_errors: "fst (detect_errors spec_example_messages) = 30"
proof -
  have "first_match error_patterns ''ERROR'' \<noteq> None"
    and "first_match error_patterns ''ok'' = None"
    and "filter (\<lambda>m. first_match error_patterns m \<noteq> None) code_lines = []"
    by code_simp+
  then show ?thesis
    unfolding detect_errors_def foldl_scan_count spec_example_messages_def by simp
qed

lemma example_patterns: "detect_patterns spec_example_messages = set code_lines"
proof -
  have e: "message_patterns ''ERROR'' = {}" by code_simp
  have c: "map message_patterns code_lines = map (\<lambda>x. {x}) code_lines" by code_simp
  have "detect_patterns spec_example_messages =
      (\<Union>m \<in> set spec_example_messages. message_patterns m)"
    by (simp add: detect_patterns_Union example_length)
  also have "\<dots> = \<Union> (set (map message_patterns code_lines))"
    by (simp add: spec_example_messages_def e message_patterns_ok UN_Un)
  also have "\<dots> = set code_lines"
    unfolding c by simp
  finally show ?thesis .
qed

lemma example_card: "card (detect_patterns spec_example_messages) = 12"
  unfolding example_patterns by code_simp

text \<open>
  C1, at the example of the specification: a batch of 100 lines, 30 of them error
  lines, with 12 distinct patterns. The analysis ends in \<open>TypeError\<close>; and for the
  counts 30, 100 and 12 \<open>_calculate_anomaly_score\<close> returns 100, of severity CRITICAL,
  where the specification's formula gives 51 and HIGH.
\<close>

theorem spec_example_batch_result:
  "length spec_example_batch = 100 \<and>
   fst (detect_errors (map event_message spec_example_batch)) = 30 \<and>
   card (detect_patterns (map event_message spec_example_batch)) = 12 \<and>
   analyze_events spec_example_batch = Inl TypeError \<and>
   analyze_log_group (Inr spec_example_batch) = Error_Result TypeError \<and>
   calculate_anomaly_score 30 100 (PyInt 12) = Inr 100 \<and>
   determine_severity 100 30 = CRITICAL \<and>
   min ((30 / 100 * (7 / 10) + min (12 / 10) 1 * (3 / 10)) * 100) 100 = (51 :: real) \<and>
   determine_severity 51 30 = HIGH"
proof -
  have l: "length spec_example_batch = 100"
    using example_length by (simp add: spec_example_batch_def)
  then have ne: "spec_example_batch \<noteq> []" by auto
  have s: "calculate_anomaly_score 30 100 (PyInt 12) = Inr 100"
    by (rule calculate_anomaly_score_saturates) simp_all
  show ?thesis
    using analyze_events_nonempty [OF ne] analyze_log_group_nonempty [OF ne]
    by (simp add: l s example_messages example_errors example_card determine_severity_def)
qed

text \<open>
  C2, at a batch of one line with one pattern: the analysis ends in \<open>TypeError\<close>, and
  the result carries no score and no severity, where the claim has the score 100 and
  the severity CRITICAL.
\<close>

theorem single_pattern_batch_result:
  "[[''message'' \<mapsto> ''GET /health 200'']] \<noteq> [] \<and>
   card (detect_patterns (map event_message [[''message'' \<mapsto> ''GET /health 200'']])) = 1 \<and>
   analyze_events [[''message'' \<mapsto> ''GET /health 200'']] = Inl TypeError \<and>
   analyze_log_group (Inr [[''message'' \<mapsto> ''GET /health 200'']]) = Error_Result TypeError"
proof -
  have "card (detect_patterns (map event_message [[''message'' \<mapsto> ''GET /health 200'']])) = 1"
    by code_simp
  then show ?thesis
    by (simp add: analyze_events_nonempty analyze_log_group_nonempty)
qed

subsection \<open>Log analyzer: the analysis result\<close>





end
